theory Spec2Isabelle
  imports Complex_Main
begin

section \<open>JavaScript strings\<close>

text \<open>
  A JavaScript string is the sequence of its UTF-16 code units; a code unit is modelled
  as a natural number (those below 65536 occur). \<open>length\<close> is the string's
  \<^verbatim>\<open>.length\<close>. A literal is written \<open>lit ''abc''\<close>; a character of a literal is
  its code unit, so only code units below 256 are written that way.
\<close>

type_synonym jsstring = "nat list"

definition lit :: "string \<Rightarrow> jsstring" where
  "lit s = map of_char s"

text \<open>\<^verbatim>\<open>s.startsWith(t)\<close> and \<^verbatim>\<open>s.includes(t)\<close>: \<open>t\<close> occurs at the start of
  \<open>s\<close>, respectively at some position of \<open>s\<close>.\<close>

fun startsWith :: "'a list \<Rightarrow> 'a list \<Rightarrow> bool" where
  "startsWith s [] = True"
| "startsWith [] (c # t) = False"
| "startsWith (d # s) (c # t) = (d = c \<and> startsWith s t)"

fun js_includes :: "'a list \<Rightarrow> 'a list \<Rightarrow> bool" where
  "js_includes [] t = (t = [])"
| "js_includes (d # s) t = (startsWith (d # s) t \<or> js_includes s t)"

text \<open>\<^verbatim>\<open>s.split(sep)\<close> for a separator of one code unit: the pieces between the
  separators, empty pieces kept; the empty string gives one empty piece.\<close>

fun js_split :: "'a \<Rightarrow> 'a list \<Rightarrow> 'a list list" where
  "js_split sep [] = [[]]"
| "js_split sep (c # s) =
     (if c = sep then [] # js_split sep s
      else (case js_split sep s of
              [] \<Rightarrow> [[c]]
            | w # ws \<Rightarrow> (c # w) # ws))"

text \<open>The code units that \<^verbatim>\<open>trim()\<close> strips and that \<^verbatim>\<open>\s\<close> matches in a
  regular expression: ECMAScript's WhiteSpace and LineTerminator.\<close>

definition isWhiteSpace :: "nat \<Rightarrow> bool" where
  "isWhiteSpace c =
     (c = 9 \<or> c = 10 \<or> c = 11 \<or> c = 12 \<or> c = 13 \<or> c = 32 \<or> c = 160 \<or> c = 5760
      \<or> (8192 \<le> c \<and> c \<le> 8202) \<or> c = 8232 \<or> c = 8233 \<or> c = 8239 \<or> c = 8287
      \<or> c = 12288 \<or> c = 65279)"

definition trim :: "jsstring \<Rightarrow> jsstring" where
  "trim s = rev (dropWhile isWhiteSpace (rev (dropWhile isWhiteSpace s)))"

text \<open>
  \<^verbatim>\<open>toLowerCase()\<close> follows the Unicode case tables; the functions below take it as the
  parameter \<open>lc\<close>. On strings whose code units are all below 256 it is the function
  \<open>toLowerCase_latin1\<close>: the letters A to Z and the capital letters of the Latin-1
  supplement (0xC0 to 0xDE, without the multiplication sign 0xD7) move up by 32, every
  other code unit stays.
\<close>

definition lower_unit :: "nat \<Rightarrow> nat" where
  "lower_unit c =
     (if (65 \<le> c \<and> c \<le> 90) \<or> (192 \<le> c \<and> c \<le> 222 \<and> c \<noteq> 215) then c + 32 else c)"

definition toLowerCase_latin1 :: "jsstring \<Rightarrow> jsstring" where
  "toLowerCase_latin1 s = map lower_unit s"

section \<open>The contact store (contactStore.ts)\<close>

text \<open>
  \<^verbatim>\<open>interface ContactInfo { name?: string; notify?: string; pushName?: string }\<close>

  An optional property of an object is in one of three states: the object has no such
  property (\<open>Absent\<close>), it has the property with the value \<^verbatim>\<open>undefined\<close>
  (\<open>Undefined\<close>; the callers write \<^verbatim>\<open>pushName: pushName || undefined\<close>), or it has
  the property with a string. Reading a property (\<open>rd\<close>) gives \<^verbatim>\<open>undefined\<close>
  (\<open>None\<close>) in the first two states.
\<close>

datatype optprop = Absent | Undefined | Str jsstring

fun rd :: "optprop \<Rightarrow> jsstring option" where
  "rd Absent = None"
| "rd Undefined = None"
| "rd (Str s) = Some s"

record ContactInfo =
  name :: optprop
  notify :: optprop
  pushName :: optprop

text \<open>Object spread \<^verbatim>\<open>{ ...a, ...b }\<close>: every own property of \<open>b\<close> is copied over
  that of \<open>a\<close>, whatever its value; a property \<open>b\<close> does not have is taken from
  \<open>a\<close>.\<close>

definition spread_prop :: "optprop \<Rightarrow> optprop \<Rightarrow> optprop" where
  "spread_prop a b = (if b = Absent then a else b)"

definition spread :: "ContactInfo \<Rightarrow> ContactInfo \<Rightarrow> ContactInfo" where
  "spread a b =
     \<lparr> name = spread_prop (name a) (name b),
       notify = spread_prop (notify a) (notify b),
       pushName = spread_prop (pushName a) (pushName b) \<rparr>"

text \<open>The object without properties: \<^verbatim>\<open>...undefined\<close> spreads nothing.\<close>

definition emptyInfo :: ContactInfo where
  "emptyInfo = \<lparr> name = Absent, notify = Absent, pushName = Absent \<rparr>"

text \<open>
  \<^verbatim>\<open>let contactStore: { [jid: string]: ContactInfo } = {}\<close>

  The store is the list of its entries in the order \<^verbatim>\<open>Object.entries\<close> gives them,
  one entry per key. Assigning to a key the object has keeps the entry's place; a new key
  goes last (the keys written here contain \<^verbatim>\<open>@\<close>, so none is an array index, which
  JavaScript would enumerate first).
\<close>

type_synonym ('k, 'v) obj = "('k \<times> 'v) list"

fun lookup :: "('k, 'v) obj \<Rightarrow> 'k \<Rightarrow> 'v option" where
  "lookup [] k = None"
| "lookup ((k', v) # st) k = (if k' = k then Some v else lookup st k)"

fun assign :: "('k, 'v) obj \<Rightarrow> 'k \<Rightarrow> 'v \<Rightarrow> ('k, 'v) obj" where
  "assign [] k v = [(k, v)]"
| "assign ((k', v') # st) k v = (if k' = k then (k, v) # st else (k', v') # assign st k v)"

type_synonym store = "(jsstring, ContactInfo) obj"

text \<open>
  The module's state: the store and the pending timer of the debounced save, as the time
  (in milliseconds) at which it fires; \<open>None\<close> is \<^verbatim>\<open>saveTimeout = null\<close>.
\<close>

record contacts_state =
  contactStore :: store
  saveTimeout :: "int option"

text \<open>
  \<^verbatim>\<open>debouncedSaveContacts\<close>: clear the pending timer, set one for 5000 ms from now.
\<close>

definition debouncedSaveContacts :: "int \<Rightarrow> contacts_state \<Rightarrow> contacts_state" where
  "debouncedSaveContacts now s = s\<lparr> saveTimeout := Some (now + 5000) \<rparr>"

definition isWhatsAppJid :: "jsstring \<Rightarrow> bool" where
  "isWhatsAppJid jid =
     (js_includes jid (lit ''@s.whatsapp.net'') \<or> js_includes jid (lit ''@g.us''))"

definition hasNewInfo :: "ContactInfo option \<Rightarrow> ContactInfo \<Rightarrow> bool" where
  "hasNewInfo existingContact contactInfo =
     (case existingContact of
        None \<Rightarrow> True
      | Some e \<Rightarrow>
          rd (name contactInfo) \<noteq> rd (name e) \<or>
          rd (notify contactInfo) \<noteq> rd (notify e) \<or>
          rd (pushName contactInfo) \<noteq> rd (pushName e))"

text \<open>The properties that \<^verbatim>\<open>...contactStore[jid]\<close> spreads: those of the stored record,
  none when the store has no record for \<open>jid\<close>.\<close>

definition stored :: "store \<Rightarrow> jsstring \<Rightarrow> ContactInfo" where
  "stored st jid = (case lookup st jid of None \<Rightarrow> emptyInfo | Some e \<Rightarrow> e)"

text \<open>\<^verbatim>\<open>addContactToStore\<close>, called at time \<open>now\<close>.\<close>

definition addContactToStore ::
  "int \<Rightarrow> jsstring \<Rightarrow> ContactInfo \<Rightarrow> contacts_state \<Rightarrow> contacts_state" where
  "addContactToStore now jid contactInfo s =
     (if isWhatsAppJid jid then
        let existingContact = lookup (contactStore s) jid;
            new = hasNewInfo existingContact contactInfo;
            s' = s\<lparr> contactStore :=
                     assign (contactStore s) jid (spread (stored (contactStore s) jid) contactInfo) \<rparr>
        in if new then debouncedSaveContacts now s' else s'
      else s)"

text \<open>The store after one call; neither the time nor the timer has a part in it.\<close>

definition storeAfter :: "jsstring \<Rightarrow> ContactInfo \<Rightarrow> store \<Rightarrow> store" where
  "storeAfter jid contactInfo st =
     contactStore (addContactToStore 0 jid contactInfo \<lparr> contactStore = st, saveTimeout = None \<rparr>)"

subsection \<open>Saving the store\<close>

text \<open>
  The two files \<^verbatim>\<open>data/contacts.json\<close> and \<^verbatim>\<open>data/contacts_backup.json\<close>, each with
  its content or \<open>None\<close> when it does not exist. \<open>'c\<close> is the type of file
  contents; \<^verbatim>\<open>JSON.stringify(contacts, null, 2)\<close> is the parameter \<open>stringify\<close>.
\<close>

record 'c contact_files =
  primary :: "'c option"
  backup :: "'c option"

text \<open>
  What the file system does with one call is the environment's choice: the call returns,
  or it throws and leaves the file it was writing with some content (or without one).
\<close>

datatype 'c outcome = Returns | Throws "'c option"

record 'c save_io =
  mkdirSync :: "'c outcome"
  copyFileSync :: "'c outcome"
  writeFileSync :: "'c outcome"

text \<open>
  \<^verbatim>\<open>savePersistedContacts\<close>: inside one \<^verbatim>\<open>try\<close>, make the directory, copy the primary
  file to the backup when the primary exists, then write the primary. An exception ends
  the function (it is logged). The result is whether the function reached its end, and the
  successive states of the files, one after each call that touched them.
\<close>

definition savePersistedContacts ::
  "(store \<Rightarrow> 'c) \<Rightarrow> 'c save_io \<Rightarrow> store \<Rightarrow> 'c contact_files \<Rightarrow> bool \<times> 'c contact_files list"
  where
  "savePersistedContacts stringify io contacts fs =
     (if mkdirSync io \<noteq> Returns then (False, [])
      else
        (case (if primary fs \<noteq> None
               then (case copyFileSync io of
                       Returns \<Rightarrow> (True, [fs\<lparr> backup := primary fs \<rparr>])
                     | Throws r \<Rightarrow> (False, [fs\<lparr> backup := r \<rparr>]))
               else (True, [])) of
           (False, tr) \<Rightarrow> (False, tr)
         | (True, tr) \<Rightarrow>
             (let fs1 = last (fs # tr) in
              case writeFileSync io of
                Returns \<Rightarrow> (True, tr @ [fs1\<lparr> primary := Some (stringify contacts) \<rparr>])
              | Throws r \<Rightarrow> (False, tr @ [fs1\<lparr> primary := r \<rparr>]))))"

subsection \<open>The debounce timer\<close>

text \<open>
  The module with its files, and the log of the stores that \<^verbatim>\<open>savePersistedContacts\<close>
  was called with by the timer, oldest first.
\<close>

record 'c contacts_system =
  module :: contacts_state
  files :: "'c contact_files"
  flushes :: "store list"

text \<open>The timer's callback:
  \<^verbatim>\<open>() => { savePersistedContacts(contactStore); saveTimeout = null }\<close>.\<close>

definition timerCallback ::
  "(store \<Rightarrow> 'c) \<Rightarrow> 'c save_io \<Rightarrow> 'c contacts_system \<Rightarrow> 'c contacts_system" where
  "timerCallback stringify io sys =
     sys\<lparr> files := last (files sys # snd (savePersistedContacts stringify io
                        (contactStore (module sys)) (files sys))),
          flushes := flushes sys @ [contactStore (module sys)],
          module := (module sys)\<lparr> saveTimeout := None \<rparr> \<rparr>"

text \<open>Time reaches \<open>t\<close>: a pending timer whose time has come runs its callback.\<close>

definition advance ::
  "(store \<Rightarrow> 'c) \<Rightarrow> 'c save_io \<Rightarrow> int \<Rightarrow> 'c contacts_system \<Rightarrow> 'c contacts_system" where
  "advance stringify io t sys =
     (case saveTimeout (module sys) of
        None \<Rightarrow> sys
      | Some d \<Rightarrow> if d \<le> t then timerCallback stringify io sys else sys)"

text \<open>A call \<^verbatim>\<open>addContactToStore(jid, contactInfo)\<close> made at time \<open>t\<close>.\<close>

definition put ::
  "(store \<Rightarrow> 'c) \<Rightarrow> 'c save_io \<Rightarrow> int \<times> jsstring \<times> ContactInfo \<Rightarrow>
   'c contacts_system \<Rightarrow> 'c contacts_system" where
  "put stringify io call sys =
     (case call of (t, jid, contactInfo) \<Rightarrow>
        (let sys' = advance stringify io t sys
         in sys'\<lparr> module := addContactToStore t jid contactInfo (module sys') \<rparr>))"

fun puts ::
  "(store \<Rightarrow> 'c) \<Rightarrow> 'c save_io \<Rightarrow> (int \<times> jsstring \<times> ContactInfo) list \<Rightarrow>
   'c contacts_system \<Rightarrow> 'c contacts_system" where
  "puts stringify io [] sys = sys"
| "puts stringify io (call # calls) sys = puts stringify io calls (put stringify io call sys)"

text \<open>Whether some call of the sequence reaches \<^verbatim>\<open>debouncedSaveContacts\<close>: its
  identifier passes the guard and \<^verbatim>\<open>hasNewInfo\<close> holds in the store it meets.\<close>

fun schedules :: "(jsstring \<times> ContactInfo) list \<Rightarrow> store \<Rightarrow> bool" where
  "schedules [] st = False"
| "schedules ((jid, contactInfo) # calls) st =
     ((isWhatsAppJid jid \<and> hasNewInfo (lookup st jid) contactInfo) \<or>
      schedules calls (storeAfter jid contactInfo st))"

text \<open>No timer fires while calls arrive between \<open>t0\<close> and \<open>t0 + 5000\<close>: none is
  pending, or the pending one is due at \<open>t0 + 5000\<close> or later (and by \<open>tEnd\<close>).\<close>

definition quiet :: "int \<Rightarrow> int \<Rightarrow> 'c contacts_system \<Rightarrow> bool" where
  "quiet t0 tEnd sys =
     (case saveTimeout (module sys) of None \<Rightarrow> True | Some d \<Rightarrow> t0 + 5000 \<le> d \<and> d \<le> tEnd)"

section \<open>Resolving a contact by name (contactExtractor.ts)\<close>

text \<open>\<^verbatim>\<open>a || b\<close> on optional strings: \<open>a\<close> when it is a non-empty string.\<close>

definition orElse :: "jsstring option \<Rightarrow> jsstring option \<Rightarrow> jsstring option" where
  "orElse a b = (case a of Some (c # s) \<Rightarrow> a | _ \<Rightarrow> b)"

text \<open>\<^verbatim>\<open>(contact.name || contact.notify || contact.pushName || '').toLowerCase()\<close>\<close>

definition contactName :: "(jsstring \<Rightarrow> jsstring) \<Rightarrow> ContactInfo \<Rightarrow> jsstring" where
  "contactName lc contact =
     lc (case orElse (orElse (orElse (rd (name contact)) (rd (notify contact)))
                 (rd (pushName contact))) (Some []) of
           Some s \<Rightarrow> s
         | None \<Rightarrow> [])"

text \<open>The test of the first loop.\<close>

definition substringMatch :: "(jsstring \<Rightarrow> jsstring) \<Rightarrow> jsstring \<Rightarrow> ContactInfo \<Rightarrow> bool" where
  "substringMatch lc name' contact =
     (js_includes (contactName lc contact) (lc name') \<or>
      js_includes (lc name') (contactName lc contact))"

text \<open>The test of the second loop: some part of the search name, longer than two code
  units, occurs in some part of the contact's name.\<close>

definition partMatch :: "(jsstring \<Rightarrow> jsstring) \<Rightarrow> jsstring \<Rightarrow> ContactInfo \<Rightarrow> bool" where
  "partMatch lc name' contact =
     list_ex (\<lambda>searchPart.
        list_ex (\<lambda>namePart. length searchPart > 2 \<and> js_includes namePart searchPart)
          (js_split 32 (contactName lc contact)))
       (js_split 32 (lc name'))"

text \<open>A promise of the socket: it resolves with a value or rejects with an error, of
  which the code reads the message.\<close>

datatype 'a promise = Resolves 'a | Rejects jsstring

text \<open>The test \<^verbatim>\<open>/^\+?\d+$/\<close> and the two replacements of the phone-number branch.\<close>

definition isDigit :: "nat \<Rightarrow> bool" where
  "isDigit c = (48 \<le> c \<and> c \<le> 57)"

definition looksLikePhone :: "jsstring \<Rightarrow> bool" where
  "looksLikePhone name' =
     (let s = filter (\<lambda>c. \<not> isWhiteSpace c \<and> c \<noteq> 45) name';
          ds = (case s of c # r \<Rightarrow> if c = 43 then r else s | [] \<Rightarrow> s)
      in ds \<noteq> [] \<and> list_all isDigit ds)"

definition cleanNumber :: "jsstring \<Rightarrow> jsstring" where
  "cleanNumber name' = filter (\<lambda>c. c \<noteq> 43 \<and> \<not> isWhiteSpace c \<and> c \<noteq> 45) name'"

text \<open>
  \<^verbatim>\<open>findContactByName\<close>. \<open>onWhatsApp\<close> is the socket's existence check; its result
  is the list of \<^verbatim>\<open>{ exists, jid }\<close> (an undefined result is the empty list).
\<close>

definition findContactByName ::
  "(jsstring \<Rightarrow> jsstring) \<Rightarrow> (jsstring \<Rightarrow> (bool \<times> jsstring) list promise) \<Rightarrow> store \<Rightarrow>
   jsstring \<Rightarrow> jsstring option" where
  "findContactByName lc onWhatsApp st name' =
     (case find (\<lambda>(jid, contact). substringMatch lc name' contact) st of
        Some (jid, contact) \<Rightarrow> Some jid
      | None \<Rightarrow>
         (case find (\<lambda>(jid, contact). partMatch lc name' contact) st of
            Some (jid, contact) \<Rightarrow> Some jid
          | None \<Rightarrow>
             (if looksLikePhone name' then
                (case onWhatsApp (cleanNumber name' @ lit ''@s.whatsapp.net'') of
                   Resolves ((True, jid) # rest) \<Rightarrow> Some jid
                 | _ \<Rightarrow> None)
              else None)))"

section \<open>The groups snapshot (groupsStorage.ts)\<close>

record GroupInfo =
  jid :: jsstring
  name :: jsstring
  description :: "jsstring option"
  participantCount :: nat

record GroupsData =
  lastUpdated :: int
  groups :: "GroupInfo list"
  version :: jsstring

text \<open>
  Times are \<^verbatim>\<open>Date.now()\<close>, in milliseconds. \<^verbatim>\<open>(Date.now() - t) / (1000 * 60 * 60)\<close>
  is the age in hours, a rational number here (the quotient of the source is its nearest
  double: rounding is monotone and keeps the whole numbers 6 and 24, so the comparisons
  with them come out the same).
\<close>

definition ageHours :: "int \<Rightarrow> int \<Rightarrow> rat" where
  "ageHours now t = of_int (now - t) / (1000 * 60 * 60)"

text \<open>
  \<^verbatim>\<open>loadGroups\<close>, for the storage's \<^verbatim>\<open>cacheExpiryHours\<close>. The file is given as what
  reading and parsing it yields: \<open>None\<close> when either throws (no file, not JSON).
\<close>

definition loadGroups :: "rat \<Rightarrow> int \<Rightarrow> GroupsData option \<Rightarrow> GroupInfo list" where
  "loadGroups cacheExpiryHours now file =
     (case file of
        None \<Rightarrow> []
      | Some data \<Rightarrow>
          if ageHours now (lastUpdated data) > cacheExpiryHours then [] else groups data)"

text \<open>\<^verbatim>\<open>saveGroups\<close>: the write may throw, which is logged; the file then holds what
  the failed write left.\<close>

definition saveGroups ::
  "GroupsData outcome \<Rightarrow> int \<Rightarrow> GroupInfo list \<Rightarrow> GroupsData option \<Rightarrow> GroupsData option" where
  "saveGroups writeFile now gs file =
     (case writeFile of
        Returns \<Rightarrow> Some \<lparr> lastUpdated = now, groups = gs, version = lit ''1.0'' \<rparr>
      | Throws r \<Rightarrow> r)"

section \<open>The groups registry (groupManager.ts)\<close>

text \<open>What the socket reports of a group: the fields the code reads.\<close>

record GroupMetadata =
  subject :: "jsstring option"
  desc :: "jsstring option"
  participants :: "jsstring list option"

text \<open>
  The module's state: \<^verbatim>\<open>groupsCache\<close> (a \<^verbatim>\<open>Map\<close>, in insertion order), the file of
  \<^verbatim>\<open>groupsStorage\<close> (created with 24 hours), \<^verbatim>\<open>metadataQueue\<close> with its entries
  \<^verbatim>\<open>{ jid, retryCount }\<close> as pairs, and \<^verbatim>\<open>isProcessingQueue\<close>.
\<close>

record manager =
  groupsCache :: "(jsstring, GroupInfo) obj"
  groupsFile :: "GroupsData option"
  metadataQueue :: "(jsstring \<times> nat) list"
  isProcessingQueue :: bool

definition toGroupInfo :: "jsstring \<Rightarrow> GroupMetadata \<Rightarrow> GroupInfo" where
  "toGroupInfo j m =
     \<lparr> jid = j,
       name = (case subject m of Some (c # s) \<Rightarrow> c # s | _ \<Rightarrow> lit ''Unknown Group''),
       description = desc m,
       participantCount = (case participants m of Some ps \<Rightarrow> length ps | None \<Rightarrow> 0) \<rparr>"

text \<open>\<^verbatim>\<open>gs.forEach(group => groupsCache.set(group.jid, group))\<close>\<close>

definition setAll :: "GroupInfo list \<Rightarrow> (jsstring, GroupInfo) obj \<Rightarrow> (jsstring, GroupInfo) obj" where
  "setAll gs cache = fold (\<lambda>g c. assign c (jid g) g) gs cache"

text \<open>\<^verbatim>\<open>checkIfGroupCountChanged\<close>: a failed probe counts as no change.\<close>

definition checkIfGroupCountChanged ::
  "(jsstring, GroupMetadata) obj promise \<Rightarrow> nat \<Rightarrow> bool" where
  "checkIfGroupCountChanged probe cachedCount =
     (case probe of
        Resolves currentGroups \<Rightarrow> length currentGroups \<noteq> cachedCount
      | Rejects e \<Rightarrow> False)"

text \<open>
  What the environment gives to one call of \<^verbatim>\<open>getAllGroups\<close>: the clock (one reading
  serves the whole call), the answers
  of \<^verbatim>\<open>groupFetchAllParticipating\<close> to the count probe and to the full fetch, and the
  outcome of the write of \<^verbatim>\<open>saveGroups\<close>.
\<close>

record groups_env =
  clock :: int
  probeAnswer :: "(jsstring, GroupMetadata) obj promise"
  fetchAnswer :: "(jsstring, GroupMetadata) obj promise"
  writeFile :: "GroupsData outcome"

text \<open>
  \<^verbatim>\<open>getAllGroups\<close>: the returned list, or \<open>Inl\<close> the message of the error it
  rethrows, and the module's state afterwards.
\<close>

definition getAllGroups ::
  "groups_env \<Rightarrow> bool \<Rightarrow> manager \<Rightarrow> (jsstring + GroupInfo list) \<times> manager" where
  "getAllGroups env forceRefresh s =
     (let cachedGroups = loadGroups 24 (clock env) (groupsFile s) in
      if \<not> forceRefresh \<and> cachedGroups \<noteq> [] \<and>
         \<not> checkIfGroupCountChanged (probeAnswer env) (length cachedGroups)
      then (Inr cachedGroups, s\<lparr> groupsCache := setAll cachedGroups [] \<rparr>)
      else
        (case fetchAnswer env of
           Resolves fetched \<Rightarrow>
             (let groupInfos = map (\<lambda>(j, groupData). toGroupInfo j groupData) fetched
              in (Inr groupInfos,
                  s\<lparr> groupsCache := setAll groupInfos (groupsCache s),
                     groupsFile := saveGroups (writeFile env) (clock env) groupInfos
                                     (groupsFile s) \<rparr>))
         | Rejects message \<Rightarrow>
             if message = lit ''rate-overlimit'' then
               (let cachedGroups' = loadGroups 24 (clock env) (groupsFile s) in
                if cachedGroups' \<noteq> []
                then (Inr cachedGroups', s\<lparr> groupsCache := setAll cachedGroups' (groupsCache s) \<rparr>)
                else (Inr (map snd (groupsCache s)), s))
             else (Inl message, s)))"

text \<open>\<^verbatim>\<open>findGroupByName\<close>, over \<^verbatim>\<open>groupsCache.values()\<close>.\<close>

definition findGroupByName ::
  "(jsstring \<Rightarrow> jsstring) \<Rightarrow> (jsstring, GroupInfo) obj \<Rightarrow> jsstring \<Rightarrow> GroupInfo option" where
  "findGroupByName lc cache groupName =
     (let searchTerm = trim (lc groupName) in
      case find (\<lambda>g. lc (name g) = searchTerm) (map snd cache) of
        Some g \<Rightarrow> Some g
      | None \<Rightarrow> find (\<lambda>g. js_includes (lc (name g)) searchTerm) (map snd cache))"

subsection \<open>The metadata queue\<close>

text \<open>
  \<^verbatim>\<open>fetchMetadataWithRateLimit\<close>, given the answer of \<^verbatim>\<open>sock.groupMetadata(jid)\<close>.
  (The function first waits \<^verbatim>\<open>2000 + retryCount * 3000\<close> ms; the wait changes nothing
  of the state.)
\<close>

definition fetchMetadataWithRateLimit ::
  "GroupMetadata promise \<Rightarrow> jsstring \<Rightarrow> nat \<Rightarrow> manager \<Rightarrow> bool \<times> manager" where
  "fetchMetadataWithRateLimit answer j retryCount s =
     (case answer of
        Resolves metadata \<Rightarrow>
          (True, s\<lparr> groupsCache := assign (groupsCache s) j (toGroupInfo j metadata) \<rparr>)
      | Rejects message \<Rightarrow>
          if message = lit ''rate-overlimit'' \<and> retryCount < 3
          then (False, s\<lparr> metadataQueue := metadataQueue s @ [(j, retryCount + 1)] \<rparr>)
          else (False, s))"

text \<open>What an entry can still cost: itself and the retries it has left.\<close>

definition cost :: "(jsstring \<times> nat) list \<Rightarrow> nat" where
  "cost q = sum_list (map (\<lambda>(j, retryCount). 4 - retryCount) q) + length q"

text \<open>
  The \<^verbatim>\<open>while (metadataQueue.length > 0)\<close> loop. \<open>sock n j\<close> is the answer of the
  \<open>n\<close>-th call of \<^verbatim>\<open>groupMetadata\<close> within the loop (counted from 0), asked for
  \<open>j\<close>. \<open>processed\<close> lists the entries taken so far (its length is the counter
  \<^verbatim>\<open>processed\<close>); \<open>successful\<close> is the other counter. No event handler adds to the
  queue while the loop runs: the queue changes by the loop's own retries only.
\<close>

function processLoop ::
  "(nat \<Rightarrow> jsstring \<Rightarrow> GroupMetadata promise) \<Rightarrow> manager \<Rightarrow> (jsstring \<times> nat) list \<Rightarrow> nat \<Rightarrow>
   manager \<times> (jsstring \<times> nat) list \<times> nat" where
  "processLoop sock s processed successful =
     (case metadataQueue s of
        [] \<Rightarrow> (s, processed, successful)
      | item # rest \<Rightarrow>
          (let r = fetchMetadataWithRateLimit (sock (length processed) (fst item)) (fst item)
                     (snd item) (s\<lparr> metadataQueue := rest \<rparr>)
           in processLoop sock (snd r) (processed @ [item])
                (if fst r then Suc successful else successful)))"
  by pat_completeness auto
termination
proof (relation "measure (\<lambda>(sock, s, processed, successful). cost (metadataQueue s))")
  show "wf (measure (\<lambda>(sock, s, processed, successful). cost (metadataQueue s)))"
    by simp
next
  fix sock :: "nat \<Rightarrow> jsstring \<Rightarrow> GroupMetadata promise"
  fix s :: manager and processed :: "(jsstring \<times> nat) list" and successful :: nat
  fix item rest r
  assume q: "metadataQueue s = item # rest"
    and r: "r = fetchMetadataWithRateLimit (sock (length processed) (fst item)) (fst item)
                  (snd item) (s\<lparr> metadataQueue := rest \<rparr>)"
  have "cost (metadataQueue (snd r)) < cost (item # rest)"
    unfolding r fetchMetadataWithRateLimit_def cost_def
    by (cases item) (auto split: promise.splits)
  then show "((sock, snd r, processed @ [item], if fst r then Suc successful else successful),
              (sock, s, processed, successful))
             \<in> measure (\<lambda>(sock, s, processed, successful). cost (metadataQueue s))"
    using q by simp
qed

declare processLoop.simps [simp del]

text \<open>The entries that one pass over \<open>q\<close> puts back when every fetch is rate-limited, and
  the entries of the identifiers \<open>js\<close> at their \<open>i\<close>-th retry.\<close>

definition requeued :: "(jsstring \<times> nat) list \<Rightarrow> (jsstring \<times> nat) list" where
  "requeued q =
     map (\<lambda>(j, retryCount). (j, retryCount + 1)) (filter (\<lambda>(j, retryCount). retryCount < 3) q)"

definition attempt :: "nat \<Rightarrow> jsstring list \<Rightarrow> (jsstring \<times> nat) list" where
  "attempt i js = map (\<lambda>j. (j, i)) js"

text \<open>
  \<^verbatim>\<open>processMetadataQueue\<close>: the state afterwards, the entries processed, the number of
  successes, and whether another round was scheduled by the final
  \<^verbatim>\<open>if (metadataQueue.length > 0) setTimeout(...)\<close>. \<open>None\<close> for the two early
  returns.
\<close>

definition processMetadataQueue ::
  "(nat \<Rightarrow> jsstring \<Rightarrow> GroupMetadata promise) \<Rightarrow> manager \<Rightarrow>
   manager \<times> ((jsstring \<times> nat) list \<times> nat \<times> bool) option" where
  "processMetadataQueue sock s =
     (if isProcessingQueue s then (s, None)
      else if metadataQueue s = [] then (s, None)
      else
        (case processLoop sock (s\<lparr> isProcessingQueue := True \<rparr>) [] 0 of
           (s', processed, successful) \<Rightarrow>
             (s'\<lparr> isProcessingQueue := False \<rparr>,
              Some (processed, successful, metadataQueue s' \<noteq> []))))"

section \<open>The history cache (historyStorage.ts)\<close>

text \<open>\<^verbatim>\<open>GroupHistoryData\<close>; \<open>'m\<close> is the type of a formatted message.\<close>

record 'm GroupHistoryData =
  groupJid :: jsstring
  groupName :: jsstring
  messages :: "'m list"
  fetchedAt :: int
  messageCount :: nat
  period :: jsstring

definition CACHE_DURATION_HOURS :: rat where
  "CACHE_DURATION_HOURS = 6"

definition isAlnum :: "nat \<Rightarrow> bool" where
  "isAlnum c = ((97 \<le> c \<and> c \<le> 122) \<or> (65 \<le> c \<and> c \<le> 90) \<or> (48 \<le> c \<and> c \<le> 57))"

text \<open>\<^verbatim>\<open>getGroupCacheFile\<close>: every code unit that is not a letter or a digit becomes
  an underscore.\<close>

definition getGroupCacheFile :: "jsstring \<Rightarrow> jsstring" where
  "getGroupCacheFile j =
     lit ''history_cache/'' @ map (\<lambda>c. if isAlnum c then c else 95) j @ lit ''_history.json''"

text \<open>
  The directory \<^verbatim>\<open>history_cache\<close>: each path with what reading and parsing the file
  yields (\<open>None\<close>: reading or parsing throws), and the index file likewise, an object
  from identifier to \<^verbatim>\<open>{ groupName, fetchedAt }\<close>.
\<close>

record 'm history_fs =
  cacheFiles :: "jsstring \<Rightarrow> 'm GroupHistoryData option"
  indexFile :: "(jsstring, jsstring \<times> int) obj option"

definition loadGroupHistory ::
  "int \<Rightarrow> 'm history_fs \<Rightarrow> jsstring \<Rightarrow> 'm GroupHistoryData option" where
  "loadGroupHistory now fs j =
     (case cacheFiles fs (getGroupCacheFile j) of
        None \<Rightarrow> None
      | Some historyData \<Rightarrow>
          if ageHours now (fetchedAt historyData) > CACHE_DURATION_HOURS then None
          else Some historyData)"

text \<open>\<^verbatim>\<open>HistoryCacheInfo\<close>: \<open>None\<close> is \<^verbatim>\<open>{ exists: false, ... }\<close>, \<open>Some\<close> carries
  \<^verbatim>\<open>ageHours\<close> and \<^verbatim>\<open>messageCount\<close> of an existing file.\<close>

definition getGroupHistoryCacheInfo ::
  "int \<Rightarrow> 'm history_fs \<Rightarrow> jsstring \<Rightarrow> (rat \<times> nat) option" where
  "getGroupHistoryCacheInfo now fs j =
     (case cacheFiles fs (getGroupCacheFile j) of
        None \<Rightarrow> None
      | Some historyData \<Rightarrow>
          Some (ageHours now (fetchedAt historyData), messageCount historyData))"

text \<open>\<^verbatim>\<open>updateHistoryIndex\<close>: an unreadable index starts as the empty object; a failed
  write is logged.\<close>

definition updateHistoryIndex ::
  "(jsstring, jsstring \<times> int) obj outcome \<Rightarrow> jsstring \<Rightarrow> jsstring \<Rightarrow> int \<Rightarrow>
   'm history_fs \<Rightarrow> 'm history_fs" where
  "updateHistoryIndex writeIndex j gname t fs =
     (let index = (case indexFile fs of None \<Rightarrow> [] | Some i \<Rightarrow> i) in
      case writeIndex of
        Returns \<Rightarrow> fs\<lparr> indexFile := Some (assign index j (gname, t)) \<rparr>
      | Throws r \<Rightarrow> fs\<lparr> indexFile := r \<rparr>)"

text \<open>\<^verbatim>\<open>saveGroupHistory\<close>: a failed write of the cache file is rethrown (\<open>False\<close>).\<close>

definition saveGroupHistory ::
  "'m GroupHistoryData outcome \<Rightarrow> (jsstring, jsstring \<times> int) obj outcome \<Rightarrow> int \<Rightarrow>
   'm GroupHistoryData \<Rightarrow> 'm history_fs \<Rightarrow> bool \<times> 'm history_fs" where
  "saveGroupHistory writeCache writeIndex now historyData fs =
     (let cacheFile = getGroupCacheFile (groupJid historyData) in
      case writeCache of
        Throws r \<Rightarrow> (False, fs\<lparr> cacheFiles := (cacheFiles fs)(cacheFile := r) \<rparr>)
      | Returns \<Rightarrow>
          (True,
           updateHistoryIndex writeIndex (groupJid historyData) (groupName historyData) now
             (fs\<lparr> cacheFiles := (cacheFiles fs)(cacheFile := Some (historyData\<lparr> fetchedAt := now \<rparr>)) \<rparr>)))"

text \<open>
  \<^verbatim>\<open>getAllCachedHistories\<close>: for every entry of the index whose cache file reads, the
  identifier, the name, the age and the message count, sorted by age (the sort is stable).
  One reading \<open>now\<close> of the clock serves the whole call.
\<close>

definition getAllCachedHistories ::
  "int \<Rightarrow> 'm history_fs \<Rightarrow> (jsstring \<times> jsstring \<times> rat \<times> nat) list" where
  "getAllCachedHistories now fs =
     (case indexFile fs of
        None \<Rightarrow> []
      | Some index \<Rightarrow>
          sort_key (\<lambda>(j, gname, age, n). age)
            (concat (map (\<lambda>(j, (gname, t)).
                       (case getGroupHistoryCacheInfo now fs j of
                          None \<Rightarrow> []
                        | Some (age, n) \<Rightarrow> [(j, gname, age, n)])) index)))"

text \<open>\<^verbatim>\<open>fs.unlink(path)\<close>: it removes the file; \<open>unlinkThrows path\<close> is the
  environment refusing, and a file that is not there makes it throw as well.\<close>

definition unlink ::
  "(jsstring \<Rightarrow> bool) \<Rightarrow> jsstring \<Rightarrow> 'm history_fs \<Rightarrow> bool \<times> 'm history_fs" where
  "unlink unlinkThrows path fs =
     (if unlinkThrows path \<or> cacheFiles fs path = None then (False, fs)
      else (True, fs\<lparr> cacheFiles := (cacheFiles fs)(path := None) \<rparr>))"

text \<open>
  \<^verbatim>\<open>cleanExpiredHistoryCache\<close>: the loop over the cached histories, carrying the files
  and \<^verbatim>\<open>cleanedCount\<close>.
\<close>

fun cleanLoop ::
  "(jsstring \<Rightarrow> bool) \<Rightarrow> (jsstring \<times> jsstring \<times> rat \<times> nat) list \<Rightarrow> 'm history_fs \<times> nat \<Rightarrow>
   'm history_fs \<times> nat" where
  "cleanLoop unlinkThrows [] acc = acc"
| "cleanLoop unlinkThrows ((j, gname, age, n) # hs) (fs, cleanedCount) =
     (if age > CACHE_DURATION_HOURS then
        (case unlink unlinkThrows (getGroupCacheFile j) fs of
           (True, fs') \<Rightarrow> cleanLoop unlinkThrows hs (fs', cleanedCount + 1)
         | (False, fs') \<Rightarrow> cleanLoop unlinkThrows hs (fs', cleanedCount))
      else cleanLoop unlinkThrows hs (fs, cleanedCount))"

definition cleanExpiredHistoryCache ::
  "(jsstring \<Rightarrow> bool) \<Rightarrow> int \<Rightarrow> 'm history_fs \<Rightarrow> 'm history_fs \<times> nat" where
  "cleanExpiredHistoryCache unlinkThrows now fs =
     cleanLoop unlinkThrows (getAllCachedHistories now fs) (fs, 0)"

text \<open>An entry of the index is expired at \<open>now\<close> when its age exceeds the duration.\<close>

definition expiredEntries :: "int \<Rightarrow> (jsstring, jsstring \<times> int) obj \<Rightarrow> jsstring list" where
  "expiredEntries now index =
     map fst (filter (\<lambda>(j, (gname, t)). ageHours now t > CACHE_DURATION_HOURS) index)"

section \<open>Properties of the contact store\<close>

lemma lookup_assign_same: "lookup (assign st k v) k = Some v"
  by (induction st) auto

lemma lookup_assign_other: "k' \<noteq> k \<Longrightarrow> lookup (assign st k v) k' = lookup st k'"
  by (induction st) auto

lemma contactStore_addContactToStore:
  "contactStore (addContactToStore now j c s) = storeAfter j c (contactStore s)"
  by (simp add: addContactToStore_def storeAfter_def Let_def debouncedSaveContacts_def)

lemma saveTimeout_addContactToStore:
  "saveTimeout (addContactToStore now j c s) =
     (if isWhatsAppJid j \<and> hasNewInfo (lookup (contactStore s) j) c then Some (now + 5000)
      else saveTimeout s)"
  by (simp add: addContactToStore_def Let_def debouncedSaveContacts_def)

text \<open>
  Claim C1, as the code has it by design. \<^verbatim>\<open>addContactToStore\<close> merges only under its
  guard ("Only store real WhatsApp contacts"):
  \<^item> for an identifier that contains \<^verbatim>\<open>@s.whatsapp.net\<close> or \<^verbatim>\<open>@g.us\<close> it leaves a
    record under that identifier in which every property that the partial record has with
    a string is that string, and every property that the partial record does not have is
    the one stored before; the records of all other identifiers stay as they were;
  \<^item> for any other identifier the store stays as it was.

  Nothing is said here of a property that the partial record has with the value
  \<^verbatim>\<open>undefined\<close>.
\<close>

theorem addContactToStore_merges_under_guard:
  "(isWhatsAppJid j \<longrightarrow>
      (\<exists>merged. lookup (contactStore (addContactToStore now j contactInfo s)) j = Some merged \<and>
         (\<forall>v. ContactInfo.name contactInfo = Str v \<longrightarrow> ContactInfo.name merged = Str v) \<and>
         (ContactInfo.name contactInfo = Absent \<longrightarrow>
            ContactInfo.name merged = ContactInfo.name (stored (contactStore s) j)) \<and>
         (\<forall>v. notify contactInfo = Str v \<longrightarrow> notify merged = Str v) \<and>
         (notify contactInfo = Absent \<longrightarrow> notify merged = notify (stored (contactStore s) j)) \<and>
         (\<forall>v. pushName contactInfo = Str v \<longrightarrow> pushName merged = Str v) \<and>
         (pushName contactInfo = Absent \<longrightarrow>
            pushName merged = pushName (stored (contactStore s) j))) \<and>
      (\<forall>k. k \<noteq> j \<longrightarrow>
         lookup (contactStore (addContactToStore now j contactInfo s)) k =
         lookup (contactStore s) k)) \<and>
   (\<not> isWhatsAppJid j \<longrightarrow>
      contactStore (addContactToStore now j contactInfo s) = contactStore s)"
  by (simp add: addContactToStore_def Let_def debouncedSaveContacts_def lookup_assign_same
      lookup_assign_other spread_def spread_prop_def)

theorem addContactToStore_merges_under_guard_witness:
  "(\<exists>merged.
      lookup (contactStore (addContactToStore 0 (lit ''1555@s.whatsapp.net'')
        \<lparr> ContactInfo.name = Str (lit ''Alexandra''), notify = Absent,
          pushName = Str (lit ''Alexandra'') \<rparr>
        \<lparr> contactStore = [(lit ''1555@s.whatsapp.net'',
             \<lparr> ContactInfo.name = Str (lit ''Alex''), notify = Str (lit ''Al''),
               pushName = Absent \<rparr>)],
          saveTimeout = None \<rparr>)) (lit ''1555@s.whatsapp.net'') = Some merged \<and>
      ContactInfo.name merged = Str (lit ''Alexandra'') \<and>
      notify merged = Str (lit ''Al'') \<and>
      pushName merged = Str (lit ''Alexandra'')) \<and>
   contactStore (addContactToStore 0 (lit ''1555@lid'')
        \<lparr> ContactInfo.name = Str (lit ''Alexandra''), notify = Absent,
          pushName = Str (lit ''Alexandra'') \<rparr>
        \<lparr> contactStore = [(lit ''1555@s.whatsapp.net'',
             \<lparr> ContactInfo.name = Str (lit ''Alex''), notify = Str (lit ''Al''),
               pushName = Absent \<rparr>)],
          saveTimeout = None \<rparr>)
     = [(lit ''1555@s.whatsapp.net'',
         \<lparr> ContactInfo.name = Str (lit ''Alex''), notify = Str (lit ''Al''),
           pushName = Absent \<rparr>)]"
proof -
  let ?info = "\<lparr> ContactInfo.name = Str (lit ''Alexandra''), notify = Absent,
                 pushName = Str (lit ''Alexandra'') \<rparr>"
  let ?s = "\<lparr> contactStore = [(lit ''1555@s.whatsapp.net'',
               \<lparr> ContactInfo.name = Str (lit ''Alex''), notify = Str (lit ''Al''),
                 pushName = Absent \<rparr>)],
             saveTimeout = None \<rparr>"
  have h1: "isWhatsAppJid (lit ''1555@s.whatsapp.net'')"
    by (simp add: isWhatsAppJid_def lit_def)
  have h2: "\<not> isWhatsAppJid (lit ''1555@lid'')"
    by (simp add: isWhatsAppJid_def lit_def)
  note main = addContactToStore_merges_under_guard
  from main [of "lit ''1555@s.whatsapp.net''" 0 ?info ?s,
             THEN conjunct1, THEN mp, OF h1, THEN conjunct1]
  have a: "\<exists>merged.
      lookup (contactStore (addContactToStore 0 (lit ''1555@s.whatsapp.net'') ?info ?s))
        (lit ''1555@s.whatsapp.net'') = Some merged \<and>
      ContactInfo.name merged = Str (lit ''Alexandra'') \<and>
      notify merged = Str (lit ''Al'') \<and>
      pushName merged = Str (lit ''Alexandra'')"
    by (auto simp add: stored_def)
  from main [of "lit ''1555@lid''" 0 ?info ?s, THEN conjunct2, THEN mp, OF h2]
  have b: "contactStore (addContactToStore 0 (lit ''1555@lid'') ?info ?s) = contactStore ?s" .
  from a b show ?thesis by simp
qed

text \<open>
  Claim C1 as stated fails on the guard: for an identifier that is not a WhatsApp one
  (\<^verbatim>\<open>1555@lid\<close>) the string of the partial record does not overwrite anything, the store
  has no record of it afterwards.
\<close>

theorem addContactToStore_foreign_identifier_counterexample:
  "rd (ContactInfo.name
        \<lparr> ContactInfo.name = Str (lit ''Alex''), notify = Absent, pushName = Absent \<rparr>)
     = Some (lit ''Alex'') \<and>
   lookup (contactStore (addContactToStore 0 (lit ''1555@lid'')
       \<lparr> ContactInfo.name = Str (lit ''Alex''), notify = Absent, pushName = Absent \<rparr>
       \<lparr> contactStore = [], saveTimeout = None \<rparr>)) (lit ''1555@lid'') = None"
  by (simp add: addContactToStore_def isWhatsAppJid_def lit_def)

text \<open>
  The code at the input of \<^verbatim>\<open>extractContactFromMessage\<close> for a message without a push
  name: the caller passes \<^verbatim>\<open>pushName: pushName || undefined\<close> for "not known", and the
  spread, commented "Keep existing info" and "Update with new info", copies the
  \<^verbatim>\<open>undefined\<close> over the stored push name, which is lost although nothing new came in.
\<close>

lemma addContactToStore_undefined_erases_stored:
  "rd (pushName (stored [(lit ''1555@s.whatsapp.net'',
       \<lparr> ContactInfo.name = Str (lit ''Alex''), notify = Str (lit ''Alex''),
         pushName = Str (lit ''Alex'') \<rparr>)] (lit ''1555@s.whatsapp.net''))) = Some (lit ''Alex'') \<and>
   rd (pushName (stored (contactStore (addContactToStore 0 (lit ''1555@s.whatsapp.net'')
       \<lparr> ContactInfo.name = Str (lit ''Alex''), notify = Str (lit ''Alex''),
         pushName = Undefined \<rparr>
       \<lparr> contactStore = [(lit ''1555@s.whatsapp.net'',
            \<lparr> ContactInfo.name = Str (lit ''Alex''), notify = Str (lit ''Alex''),
              pushName = Str (lit ''Alex'') \<rparr>)],
         saveTimeout = None \<rparr>)) (lit ''1555@s.whatsapp.net''))) = None"
  by (simp add: addContactToStore_def isWhatsAppJid_def stored_def hasNewInfo_def spread_def
      spread_prop_def Let_def debouncedSaveContacts_def lit_def)

text \<open>
  Claim C9. For an identifier that contains neither \<^verbatim>\<open>@s.whatsapp.net\<close> nor
  \<^verbatim>\<open>@g.us\<close>, \<^verbatim>\<open>addContactToStore\<close> returns the state it was given: the store is the
  same and no save is scheduled. So a call that changes the state has an identifier that
  contains one of the two.
\<close>

theorem addContactToStore_foreign_identifier_no_effect:
  "(\<not> js_includes j (lit ''@s.whatsapp.net'') \<and> \<not> js_includes j (lit ''@g.us'')
      \<longrightarrow> addContactToStore now j contactInfo s = s) \<and>
   (addContactToStore now j contactInfo s \<noteq> s
      \<longrightarrow> js_includes j (lit ''@s.whatsapp.net'') \<or> js_includes j (lit ''@g.us''))"
  by (auto simp: addContactToStore_def isWhatsAppJid_def)

theorem addContactToStore_foreign_identifier_no_effect_witness:
  "addContactToStore 0 (lit ''12345@lid'')
     \<lparr> ContactInfo.name = Str (lit ''Bob''), notify = Absent, pushName = Absent \<rparr>
     \<lparr> contactStore = [(lit ''777@g.us'', emptyInfo)], saveTimeout = None \<rparr>
   = \<lparr> contactStore = [(lit ''777@g.us'', emptyInfo)], saveTimeout = None \<rparr>"
proof -
  have "\<not> js_includes (lit ''12345@lid'') (lit ''@s.whatsapp.net'') \<and>
        \<not> js_includes (lit ''12345@lid'') (lit ''@g.us'')"
    by (simp add: lit_def)
  with addContactToStore_foreign_identifier_no_effect [of "lit ''12345@lid''"]
  show ?thesis by blast
qed

text \<open>
  Claim C6. When the primary file exists with the content \<open>old\<close> and
  \<^verbatim>\<open>savePersistedContacts\<close> runs to its end, the files go through exactly two states:
  first the backup holds \<open>old\<close> while the primary still does, then the primary holds the
  new content while the backup holds \<open>old\<close>.
\<close>

theorem savePersistedContacts_backup_before_overwrite:
  assumes "primary fs = Some old"
    and "savePersistedContacts stringify io contacts fs = (True, tr)"
  shows "tr = [fs\<lparr> backup := Some old \<rparr>,
               fs\<lparr> backup := Some old, primary := Some (stringify contacts) \<rparr>]"
  using assms
  by (auto simp: savePersistedContacts_def Let_def split: outcome.splits if_splits)

theorem savePersistedContacts_backup_before_overwrite_witness:
  "primary \<lparr> primary = Some [(lit ''1@g.us'', emptyInfo)], backup = None \<rparr>
     = Some [(lit ''1@g.us'', emptyInfo)] \<and>
   savePersistedContacts (\<lambda>st. st)
     \<lparr> mkdirSync = Returns, copyFileSync = Returns, writeFileSync = Returns \<rparr>
     [(lit ''2@g.us'', emptyInfo)]
     \<lparr> primary = Some [(lit ''1@g.us'', emptyInfo)], backup = None \<rparr>
   = (True,
      [\<lparr> primary = Some [(lit ''1@g.us'', emptyInfo)],
         backup = Some [(lit ''1@g.us'', emptyInfo)] \<rparr>,
       \<lparr> primary = Some [(lit ''2@g.us'', emptyInfo)],
         backup = Some [(lit ''1@g.us'', emptyInfo)] \<rparr>])"
proof -
  let ?fs = "\<lparr> primary = Some [(lit ''1@g.us'', emptyInfo)], backup = None \<rparr>"
  let ?io = "\<lparr> mkdirSync = Returns, copyFileSync = Returns, writeFileSync = Returns \<rparr>
               :: store save_io"
  have h1: "primary ?fs = Some [(lit ''1@g.us'', emptyInfo)]" by simp
  obtain tr where h2:
    "savePersistedContacts (\<lambda>st. st) ?io [(lit ''2@g.us'', emptyInfo)] ?fs = (True, tr)"
    by (simp add: savePersistedContacts_def)
  from savePersistedContacts_backup_before_overwrite [OF h1 h2] h1 h2
  show ?thesis by simp
qed

section \<open>The debounced save\<close>

lemma put_in_window:
  assumes "quiet t0 tEnd sys" and "t0 \<le> t" and "t < t0 + 5000" and "t + 5000 \<le> tEnd"
  shows "quiet t0 tEnd (put stringify io (t, j, c) sys) \<and>
         flushes (put stringify io (t, j, c) sys) = flushes sys \<and>
         files (put stringify io (t, j, c) sys) = files sys \<and>
         contactStore (module (put stringify io (t, j, c) sys)) =
           storeAfter j c (contactStore (module sys)) \<and>
         (saveTimeout (module (put stringify io (t, j, c) sys)) \<noteq> None \<longleftrightarrow>
            saveTimeout (module sys) \<noteq> None \<or>
            (isWhatsAppJid j \<and> hasNewInfo (lookup (contactStore (module sys)) j) c))"
proof -
  have adv: "advance stringify io t sys = sys"
    using assms by (auto simp: advance_def quiet_def split: option.splits)
  show ?thesis
    using assms
    by (auto simp: put_def adv Let_def quiet_def contactStore_addContactToStore
        saveTimeout_addContactToStore split: option.splits)
qed

lemma puts_in_window:
  assumes "quiet t0 tEnd sys"
    and "\<forall>(t, j, c) \<in> set calls. t0 \<le> t \<and> t < t0 + 5000 \<and> t + 5000 \<le> tEnd"
  shows "quiet t0 tEnd (puts stringify io calls sys) \<and>
         flushes (puts stringify io calls sys) = flushes sys \<and>
         files (puts stringify io calls sys) = files sys \<and>
         contactStore (module (puts stringify io calls sys)) =
           fold (\<lambda>(t, j, c). storeAfter j c) calls (contactStore (module sys)) \<and>
         (saveTimeout (module (puts stringify io calls sys)) \<noteq> None \<longleftrightarrow>
            saveTimeout (module sys) \<noteq> None \<or>
            schedules (map snd calls) (contactStore (module sys)))"
  using assms
proof (induction calls arbitrary: sys)
  case Nil
  then show ?case by simp
next
  case (Cons call calls)
  obtain t j c where call: "call = (t, j, c)" by (cases call) auto
  from Cons.prems(2) call have w: "t0 \<le> t" "t < t0 + 5000" "t + 5000 \<le> tEnd" by auto
  note one = put_in_window [OF Cons.prems(1) w, of stringify io j c]
  from Cons.prems(2) have rest:
    "\<forall>(t, j, c) \<in> set calls. t0 \<le> t \<and> t < t0 + 5000 \<and> t + 5000 \<le> tEnd" by simp
  from one have q: "quiet t0 tEnd (put stringify io (t, j, c) sys)" by blast
  note ih = Cons.IH [OF q rest]
  show ?case
    using ih one by (simp add: call)
qed

text \<open>
  Claim C7, as the code has it. No timer is pending; the calls \<open>calls\<close> of
  \<^verbatim>\<open>addContactToStore\<close> (each with its time) all fall into a window shorter than the
  5000 ms of the timer, and time then runs on to \<open>tEnd\<close>, at least 5000 ms after each
  call. If some call reaches \<^verbatim>\<open>debouncedSaveContacts\<close> (its identifier passes the guard
  and it brings new information), the timer has called \<^verbatim>\<open>savePersistedContacts\<close> exactly
  once, with the store that all the calls together leave; if none does, it has not been
  called at all.
\<close>

theorem debounce_one_flush_when_scheduled:
  assumes "saveTimeout (module sys) = None"
    and "\<forall>(t, j, c) \<in> set calls. t0 \<le> t \<and> t < t0 + 5000 \<and> t + 5000 \<le> tEnd"
  shows "flushes (advance stringify io tEnd (puts stringify io calls sys)) =
           flushes sys @
           (if schedules (map snd calls) (contactStore (module sys))
            then [fold (\<lambda>(t, j, c). storeAfter j c) calls (contactStore (module sys))]
            else [])"
proof -
  have q: "quiet t0 tEnd sys" using assms(1) by (simp add: quiet_def)
  note p = puts_in_window [OF q assms(2), of stringify io]
  show ?thesis
  proof (cases "saveTimeout (module (puts stringify io calls sys))")
    case None
    with p assms(1) show ?thesis by (simp add: advance_def)
  next
    case (Some d)
    with p have "d \<le> tEnd" by (simp add: quiet_def)
    with Some p assms(1) show ?thesis
      by (auto simp: advance_def timerCallback_def)
  qed
qed

theorem debounce_one_flush_when_scheduled_witness:
  "flushes (advance (\<lambda>st. st)
      \<lparr> mkdirSync = Returns, copyFileSync = Returns, writeFileSync = Returns \<rparr> 9000
      (puts (\<lambda>st. st) \<lparr> mkdirSync = Returns, copyFileSync = Returns, writeFileSync = Returns \<rparr>
         [(0, lit ''1555@s.whatsapp.net'',
             \<lparr> ContactInfo.name = Str (lit ''Alex''), notify = Absent, pushName = Absent \<rparr>),
          (1000, lit ''1555@s.whatsapp.net'',
             \<lparr> ContactInfo.name = Absent, notify = Absent, pushName = Str (lit ''Al'') \<rparr>),
          (4000, lit ''777@g.us'',
             \<lparr> ContactInfo.name = Str (lit ''Family''), notify = Absent, pushName = Absent \<rparr>)]
         \<lparr> module = \<lparr> contactStore = [], saveTimeout = None \<rparr>,
           files = \<lparr> primary = None, backup = None \<rparr>, flushes = [] \<rparr>))
   = [[(lit ''1555@s.whatsapp.net'',
          \<lparr> ContactInfo.name = Str (lit ''Alex''), notify = Absent, pushName = Str (lit ''Al'') \<rparr>),
       (lit ''777@g.us'',
          \<lparr> ContactInfo.name = Str (lit ''Family''), notify = Absent, pushName = Absent \<rparr>)]]"
proof -
  let ?io = "\<lparr> mkdirSync = Returns, copyFileSync = Returns, writeFileSync = Returns \<rparr>
               :: store save_io"
  let ?calls = "[(0, lit ''1555@s.whatsapp.net'',
             \<lparr> ContactInfo.name = Str (lit ''Alex''), notify = Absent, pushName = Absent \<rparr>),
          (1000, lit ''1555@s.whatsapp.net'',
             \<lparr> ContactInfo.name = Absent, notify = Absent, pushName = Str (lit ''Al'') \<rparr>),
          (4000, lit ''777@g.us'',
             \<lparr> ContactInfo.name = Str (lit ''Family''), notify = Absent, pushName = Absent \<rparr>)]
          :: (int \<times> jsstring \<times> ContactInfo) list"
  let ?sys = "\<lparr> module = \<lparr> contactStore = [], saveTimeout = None \<rparr>,
           files = \<lparr> primary = None, backup = None \<rparr>, flushes = [] \<rparr> :: store contacts_system"
  have h1: "saveTimeout (module ?sys) = None" by simp
  have h2: "\<forall>(t, j, c) \<in> set ?calls. 0 \<le> t \<and> t < 0 + 5000 \<and> t + 5000 \<le> 9000" by simp
  show ?thesis
    using debounce_one_flush_when_scheduled [OF h1 h2, of "\<lambda>st. st" ?io]
    by (simp add: storeAfter_def addContactToStore_def isWhatsAppJid_def lit_def hasNewInfo_def
        stored_def emptyInfo_def spread_def spread_prop_def Let_def debouncedSaveContacts_def)
qed

text \<open>
  Claim C7 as stated fails: one call within the window, for a WhatsApp identifier, that
  repeats what the store already holds brings no new information, no timer is set, and
  no flush is performed however long one waits.
\<close>

theorem debounce_no_new_info_counterexample:
  "flushes (advance (\<lambda>st. st)
      \<lparr> mkdirSync = Returns, copyFileSync = Returns, writeFileSync = Returns \<rparr> 10000
      (puts (\<lambda>st. st) \<lparr> mkdirSync = Returns, copyFileSync = Returns, writeFileSync = Returns \<rparr>
         [(0, lit ''1555@s.whatsapp.net'',
             \<lparr> ContactInfo.name = Str (lit ''Alex''), notify = Absent, pushName = Absent \<rparr>)]
         \<lparr> module = \<lparr> contactStore = [(lit ''1555@s.whatsapp.net'',
               \<lparr> ContactInfo.name = Str (lit ''Alex''), notify = Absent, pushName = Absent \<rparr>)],
             saveTimeout = None \<rparr>,
           files = \<lparr> primary = None, backup = None \<rparr>, flushes = [] \<rparr>))
   = []"
  by (simp add: put_def advance_def addContactToStore_def hasNewInfo_def Let_def)

section \<open>Expiry of the snapshots\<close>

lemma ageHours_gt: "ageHours now t > of_int h \<longleftrightarrow> now - t > h * 3600000"
proof -
  have "(of_int h :: rat) < of_int (now - t) / 3600000 \<longleftrightarrow>
        (of_int (h * 3600000) :: rat) < of_int (now - t)"
    by (simp add: less_divide_eq)
  also have "\<dots> \<longleftrightarrow> h * 3600000 < now - t"
    by (simp only: of_int_less_iff)
  finally show ?thesis by (simp add: ageHours_def)
qed

text \<open>
  Claim C2, as the code has it. For a snapshot file that reads and parses,
  \<^verbatim>\<open>loadGroups\<close> (with 24 hours) returns the stored groups exactly when the snapshot is
  at most 24 hours (86400000 ms) old and the empty list when it is older; and
  \<^verbatim>\<open>loadGroupHistory\<close> returns the stored history exactly when it is at most 6 hours
  (21600000 ms) old and \<^verbatim>\<open>null\<close> when it is older. A snapshot whose age equals the
  duration is still returned.
\<close>

theorem load_hit_iff_age_at_most_ttl:
  "loadGroups 24 now (Some data) =
     (if now - lastUpdated data \<le> 24 * 3600000 then groups data else []) \<and>
   loadGroupHistory now fs j =
     (case cacheFiles fs (getGroupCacheFile j) of
        None \<Rightarrow> None
      | Some historyData \<Rightarrow>
          if now - fetchedAt historyData \<le> 6 * 3600000 then Some historyData else None)"
  using ageHours_gt [of 24 now "lastUpdated data"]
  by (auto simp: loadGroups_def loadGroupHistory_def CACHE_DURATION_HOURS_def
      ageHours_gt [of 6, simplified] split: option.splits)

text \<open>
  Claim C2 as stated fails at the boundary: a groups snapshot exactly 24 hours old and a
  history exactly 6 hours old are both returned, where the claim has a miss.
\<close>

theorem load_at_exact_ttl_counterexample:
  "86400000 - lastUpdated \<lparr> lastUpdated = 0,
       groups = [\<lparr> jid = lit ''1@g.us'', name = lit ''Family'', description = None,
                   participantCount = 3 \<rparr>],
       version = lit ''1.0'' \<rparr> = 24 * 3600000 \<and>
   loadGroups 24 86400000
     (Some \<lparr> lastUpdated = 0,
       groups = [\<lparr> jid = lit ''1@g.us'', name = lit ''Family'', description = None,
                   participantCount = 3 \<rparr>],
       version = lit ''1.0'' \<rparr>)
   = [\<lparr> jid = lit ''1@g.us'', name = lit ''Family'', description = None,
        participantCount = 3 \<rparr>] \<and>
   loadGroupHistory 21600000
     \<lparr> cacheFiles = (\<lambda>p. None)(getGroupCacheFile (lit ''1@g.us'') :=
          Some \<lparr> groupJid = lit ''1@g.us'', groupName = lit ''Family'', messages = [],
                 fetchedAt = 0, messageCount = 0, period = lit ''24h'' \<rparr>),
       indexFile = None \<rparr>
     (lit ''1@g.us'')
   = Some \<lparr> groupJid = lit ''1@g.us'', groupName = lit ''Family'', messages = [],
            fetchedAt = 0, messageCount = 0, period = lit ''24h'' \<rparr>"
  by (simp add: loadGroups_def loadGroupHistory_def ageHours_def CACHE_DURATION_HOURS_def)

section \<open>Name resolution\<close>

lemma startsWith_refl: "startsWith s s"
  by (induction s) auto

lemma js_includes_refl: "js_includes s s"
  by (cases s) (auto simp: startsWith_refl)

lemma find_first:
  "\<forall>x \<in> set pre. \<not> P x \<Longrightarrow> P y \<Longrightarrow> find P (pre @ y # post) = Some y"
  by (induction pre) auto

lemma find_none: "\<forall>x \<in> set xs. \<not> P x \<Longrightarrow> find P xs = None"
  by (induction xs) auto

text \<open>
  Claim C3. The store lists the records in the order of \<^verbatim>\<open>Object.entries\<close>, the order of
  insertion for the keys of this store. With \<open>lc\<close> for \<^verbatim>\<open>toLowerCase\<close>:
  \<^item> the first record whose lowercased best name contains the lowercased query, or is
    contained in it, gives the result, whatever follows it and whatever the second loop
    would find;
  \<^item> the second loop (parts of the names) and then the phone-number check decide only
    when no record passes the first test;
  \<^item> with the records "A Cafe" under \<open>id1\<close> and then "cafe" under \<open>id2\<close>, the query
    "Cafe" gives \<open>id1\<close> (each "e" here with the acute accent, the code unit 233, which
    lowercasing leaves as it is).
\<close>

theorem findContactByName_first_substring_match:
  "((\<forall>(k, c) \<in> set pre. \<not> substringMatch lc q c) \<and> substringMatch lc q contact
      \<longrightarrow> findContactByName lc onWhatsApp (pre @ (j, contact) # post) q = Some j) \<and>
   ((\<forall>(k, c) \<in> set st. \<not> substringMatch lc q c)
      \<longrightarrow> findContactByName lc onWhatsApp st q =
          (case find (\<lambda>(k, c). partMatch lc q c) st of
             Some (k, c) \<Rightarrow> Some k
           | None \<Rightarrow>
               if looksLikePhone q then
                 (case onWhatsApp (cleanNumber q @ lit ''@s.whatsapp.net'') of
                    Resolves ((True, k) # rest) \<Rightarrow> Some k
                  | _ \<Rightarrow> None)
               else None)) \<and>
   (lc (lit ''A Caf'' @ [233]) = lit ''a caf'' @ [233] \<and>
    lc (lit ''Caf'' @ [233]) = lit ''caf'' @ [233]
      \<longrightarrow> findContactByName lc onWhatsApp
            [(id1, \<lparr> ContactInfo.name = Str (lit ''A Caf'' @ [233]), notify = Absent,
                     pushName = Absent \<rparr>),
             (id2, \<lparr> ContactInfo.name = Str (lit ''caf'' @ [233]), notify = Absent,
                     pushName = Absent \<rparr>)]
            (lit ''Caf'' @ [233]) = Some id1)"
proof (intro conjI impI)
  assume a: "(\<forall>(k, c) \<in> set pre. \<not> substringMatch lc q c) \<and> substringMatch lc q contact"
  have "find (\<lambda>(k, c). substringMatch lc q c) (pre @ (j, contact) # post) = Some (j, contact)"
    using a by (intro find_first) auto
  then show "findContactByName lc onWhatsApp (pre @ (j, contact) # post) q = Some j"
    by (simp add: findContactByName_def)
next
  assume a: "\<forall>(k, c) \<in> set st. \<not> substringMatch lc q c"
  have "find (\<lambda>(k, c). substringMatch lc q c) st = None"
    using a by (intro find_none) auto
  then show "findContactByName lc onWhatsApp st q =
          (case find (\<lambda>(k, c). partMatch lc q c) st of
             Some (k, c) \<Rightarrow> Some k
           | None \<Rightarrow>
               if looksLikePhone q then
                 (case onWhatsApp (cleanNumber q @ lit ''@s.whatsapp.net'') of
                    Resolves ((True, k) # rest) \<Rightarrow> Some k
                  | _ \<Rightarrow> None)
               else None)"
    by (simp add: findContactByName_def)
next
  assume a: "lc (lit ''A Caf'' @ [233]) = lit ''a caf'' @ [233] \<and>
    lc (lit ''Caf'' @ [233]) = lit ''caf'' @ [233]"
  then show "findContactByName lc onWhatsApp
            [(id1, \<lparr> ContactInfo.name = Str (lit ''A Caf'' @ [233]), notify = Absent,
                     pushName = Absent \<rparr>),
             (id2, \<lparr> ContactInfo.name = Str (lit ''caf'' @ [233]), notify = Absent,
                     pushName = Absent \<rparr>)]
            (lit ''Caf'' @ [233]) = Some id1"
    by (simp add: findContactByName_def substringMatch_def contactName_def orElse_def lit_def)
qed

theorem findContactByName_first_substring_match_witness:
  "findContactByName toLowerCase_latin1 (\<lambda>j. Resolves [])
     ([(lit ''1@s.whatsapp.net'',
         \<lparr> ContactInfo.name = Str (lit ''Bob''), notify = Absent, pushName = Absent \<rparr>)] @
      (lit ''2@s.whatsapp.net'',
         \<lparr> ContactInfo.name = Absent, notify = Str (lit ''Maria Lopez''), pushName = Absent \<rparr>) #
      [(lit ''3@s.whatsapp.net'',
         \<lparr> ContactInfo.name = Str (lit ''Maria''), notify = Absent, pushName = Absent \<rparr>)])
     (lit ''MARIA'') = Some (lit ''2@s.whatsapp.net'') \<and>
   findContactByName toLowerCase_latin1 (\<lambda>j. Resolves [])
     [(lit ''2@s.whatsapp.net'',
         \<lparr> ContactInfo.name = Absent, notify = Str (lit ''Maria Lopez''), pushName = Absent \<rparr>)]
     (lit ''Lopez Garcia'') = Some (lit ''2@s.whatsapp.net'') \<and>
   findContactByName toLowerCase_latin1 (\<lambda>j. Resolves [])
     [(lit ''1@s.whatsapp.net'',
         \<lparr> ContactInfo.name = Str (lit ''A Caf'' @ [233]), notify = Absent, pushName = Absent \<rparr>),
      (lit ''2@s.whatsapp.net'',
         \<lparr> ContactInfo.name = Str (lit ''caf'' @ [233]), notify = Absent, pushName = Absent \<rparr>)]
     (lit ''Caf'' @ [233]) = Some (lit ''1@s.whatsapp.net'')"
proof -
  let ?bob = "\<lparr> ContactInfo.name = Str (lit ''Bob''), notify = Absent, pushName = Absent \<rparr>"
  let ?lopez = "\<lparr> ContactInfo.name = Absent, notify = Str (lit ''Maria Lopez''),
                  pushName = Absent \<rparr>"
  let ?maria = "\<lparr> ContactInfo.name = Str (lit ''Maria''), notify = Absent, pushName = Absent \<rparr>"
  let ?lc = toLowerCase_latin1
  note main = findContactByName_first_substring_match
  have h1: "(\<forall>(k, c) \<in> set [(lit ''1@s.whatsapp.net'', ?bob)].
               \<not> substringMatch ?lc (lit ''MARIA'') c) \<and>
            substringMatch ?lc (lit ''MARIA'') ?lopez"
    by (simp add: substringMatch_def contactName_def orElse_def toLowerCase_latin1_def
        lower_unit_def lit_def)
  have h2: "\<forall>(k, c) \<in> set [(lit ''2@s.whatsapp.net'', ?lopez)].
               \<not> substringMatch ?lc (lit ''Lopez Garcia'') c"
    by (simp add: substringMatch_def contactName_def orElse_def toLowerCase_latin1_def
        lower_unit_def lit_def)
  have h3: "?lc (lit ''A Caf'' @ [233]) = lit ''a caf'' @ [233] \<and>
            ?lc (lit ''Caf'' @ [233]) = lit ''caf'' @ [233]"
    by (simp add: toLowerCase_latin1_def lower_unit_def lit_def)
  have p: "partMatch ?lc (lit ''Lopez Garcia'') ?lopez"
    by (simp add: partMatch_def contactName_def orElse_def toLowerCase_latin1_def
        lower_unit_def lit_def)
  from main [THEN conjunct1, THEN mp, OF h1]
  have c1: "findContactByName ?lc (\<lambda>j. Resolves [])
              ([(lit ''1@s.whatsapp.net'', ?bob)] @ (lit ''2@s.whatsapp.net'', ?lopez) #
               [(lit ''3@s.whatsapp.net'', ?maria)]) (lit ''MARIA'')
            = Some (lit ''2@s.whatsapp.net'')" .
  from main [THEN conjunct2, THEN conjunct1, THEN mp, OF h2, of "\<lambda>j. Resolves []"] p
  have c2: "findContactByName ?lc (\<lambda>j. Resolves []) [(lit ''2@s.whatsapp.net'', ?lopez)]
              (lit ''Lopez Garcia'') = Some (lit ''2@s.whatsapp.net'')"
    by simp
  from main [THEN conjunct2, THEN conjunct2, THEN mp, OF h3]
  have c3: "findContactByName ?lc (\<lambda>j. Resolves [])
     [(lit ''1@s.whatsapp.net'',
         \<lparr> ContactInfo.name = Str (lit ''A Caf'' @ [233]), notify = Absent, pushName = Absent \<rparr>),
      (lit ''2@s.whatsapp.net'',
         \<lparr> ContactInfo.name = Str (lit ''caf'' @ [233]), notify = Absent, pushName = Absent \<rparr>)]
     (lit ''Caf'' @ [233]) = Some (lit ''1@s.whatsapp.net'')" .
  from c1 c2 c3 show ?thesis by blast
qed

text \<open>
  Claim C10, as the code has it. \<open>map snd cache\<close> is \<^verbatim>\<open>groupsCache.values()\<close>; the
  search term is the query lowercased and trimmed, and the code compares a group's
  lowercased name with it (\<^verbatim>\<open>group.name.toLowerCase() === searchTerm\<close>), not the name
  itself.
  \<^item> The first group whose lowercased name equals the search term is returned, also when
    groups before it contain the term.
  \<^item> When no group's lowercased name equals the term, the first group whose lowercased name
    contains it is returned.
  \<^item> When no group's lowercased name contains the term, the result is \<^verbatim>\<open>null\<close>.
  \<^item> So whenever some group's lowercased name equals the term, the result is such a group.
\<close>

theorem findGroupByName_exact_before_substring:
  "(map snd cache = pre @ g # post \<and>
    (\<forall>g' \<in> set pre. lc (GroupInfo.name g') \<noteq> trim (lc q)) \<and>
    lc (GroupInfo.name g) = trim (lc q)
      \<longrightarrow> findGroupByName lc cache q = Some g) \<and>
   (map snd cache = pre @ g # post \<and>
    (\<forall>g' \<in> set (map snd cache). lc (GroupInfo.name g') \<noteq> trim (lc q)) \<and>
    (\<forall>g' \<in> set pre. \<not> js_includes (lc (GroupInfo.name g')) (trim (lc q))) \<and>
    js_includes (lc (GroupInfo.name g)) (trim (lc q))
      \<longrightarrow> findGroupByName lc cache q = Some g) \<and>
   ((\<forall>g' \<in> set (map snd cache). \<not> js_includes (lc (GroupInfo.name g')) (trim (lc q)))
      \<longrightarrow> findGroupByName lc cache q = None) \<and>
   ((\<exists>g' \<in> set (map snd cache). lc (GroupInfo.name g') = trim (lc q))
      \<longrightarrow> (\<exists>r. findGroupByName lc cache q = Some r \<and> r \<in> set (map snd cache) \<and>
               lc (GroupInfo.name r) = trim (lc q)))"
proof (intro conjI impI)
  assume "\<exists>g' \<in> set (map snd cache). lc (GroupInfo.name g') = trim (lc q)"
  then obtain r where
    r: "find (\<lambda>g. lc (GroupInfo.name g) = trim (lc q)) (map snd cache) = Some r"
    by (cases "find (\<lambda>g. lc (GroupInfo.name g) = trim (lc q)) (map snd cache)")
       (auto simp: find_None_iff)
  then have "r \<in> set (map snd cache) \<and> lc (GroupInfo.name r) = trim (lc q)"
    by (auto simp: find_Some_iff)
  with r show "\<exists>r. findGroupByName lc cache q = Some r \<and> r \<in> set (map snd cache) \<and>
               lc (GroupInfo.name r) = trim (lc q)"
    by (simp add: findGroupByName_def)
next
  assume a: "map snd cache = pre @ g # post \<and>
    (\<forall>g' \<in> set pre. lc (GroupInfo.name g') \<noteq> trim (lc q)) \<and>
    lc (GroupInfo.name g) = trim (lc q)"
  then have "find (\<lambda>g. lc (GroupInfo.name g) = trim (lc q)) (map snd cache) = Some g"
    by (simp add: find_first)
  then show "findGroupByName lc cache q = Some g"
    by (simp add: findGroupByName_def)
next
  assume a: "map snd cache = pre @ g # post \<and>
    (\<forall>g' \<in> set (map snd cache). lc (GroupInfo.name g') \<noteq> trim (lc q)) \<and>
    (\<forall>g' \<in> set pre. \<not> js_includes (lc (GroupInfo.name g')) (trim (lc q))) \<and>
    js_includes (lc (GroupInfo.name g)) (trim (lc q))"
  then have 1: "find (\<lambda>g. lc (GroupInfo.name g) = trim (lc q)) (map snd cache) = None"
    by (intro find_none) blast
  from a have 2: "find (\<lambda>g. js_includes (lc (GroupInfo.name g)) (trim (lc q))) (map snd cache)
      = Some g"
    by (simp add: find_first)
  from 1 2 show "findGroupByName lc cache q = Some g"
    by (simp add: findGroupByName_def)
next
  assume a: "\<forall>g' \<in> set (map snd cache). \<not> js_includes (lc (GroupInfo.name g')) (trim (lc q))"
  then have "\<forall>g' \<in> set (map snd cache). lc (GroupInfo.name g') \<noteq> trim (lc q)"
    using js_includes_refl by metis
  then have 1: "find (\<lambda>g. lc (GroupInfo.name g) = trim (lc q)) (map snd cache) = None"
    by (intro find_none) blast
  from a have 2: "find (\<lambda>g. js_includes (lc (GroupInfo.name g)) (trim (lc q))) (map snd cache)
      = None"
    by (intro find_none) blast
  from 1 2 show "findGroupByName lc cache q = None"
    by (simp add: findGroupByName_def)
qed

theorem findGroupByName_exact_before_substring_witness:
  "findGroupByName toLowerCase_latin1
     [(lit ''1@g.us'', \<lparr> jid = lit ''1@g.us'', name = lit ''Family Chat'', description = None,
                         participantCount = 5 \<rparr>),
      (lit ''2@g.us'', \<lparr> jid = lit ''2@g.us'', name = lit ''Family'', description = None,
                         participantCount = 3 \<rparr>)]
     (lit '' FAMILY '')
   = Some \<lparr> jid = lit ''2@g.us'', name = lit ''Family'', description = None,
            participantCount = 3 \<rparr> \<and>
   findGroupByName toLowerCase_latin1
     [(lit ''1@g.us'', \<lparr> jid = lit ''1@g.us'', name = lit ''Family Chat'', description = None,
                         participantCount = 5 \<rparr>),
      (lit ''2@g.us'', \<lparr> jid = lit ''2@g.us'', name = lit ''Family'', description = None,
                         participantCount = 3 \<rparr>)]
     (lit ''fam'')
   = Some \<lparr> jid = lit ''1@g.us'', name = lit ''Family Chat'', description = None,
            participantCount = 5 \<rparr> \<and>
   findGroupByName toLowerCase_latin1
     [(lit ''1@g.us'', \<lparr> jid = lit ''1@g.us'', name = lit ''Family Chat'', description = None,
                         participantCount = 5 \<rparr>),
      (lit ''2@g.us'', \<lparr> jid = lit ''2@g.us'', name = lit ''Family'', description = None,
                         participantCount = 3 \<rparr>)]
     (lit ''work'')
   = None"
proof -
  let ?chat = "\<lparr> jid = lit ''1@g.us'', name = lit ''Family Chat'', description = None,
                 participantCount = 5 \<rparr>"
  let ?fam = "\<lparr> jid = lit ''2@g.us'', name = lit ''Family'', description = None,
                participantCount = 3 \<rparr>"
  let ?cache = "[(lit ''1@g.us'', ?chat), (lit ''2@g.us'', ?fam)]"
  let ?lc = toLowerCase_latin1
  note main = findGroupByName_exact_before_substring
  have h1: "map snd ?cache = [?chat] @ ?fam # [] \<and>
            (\<forall>g' \<in> set [?chat]. ?lc (GroupInfo.name g') \<noteq> trim (?lc (lit '' FAMILY ''))) \<and>
            ?lc (GroupInfo.name ?fam) = trim (?lc (lit '' FAMILY ''))"
    by (simp add: toLowerCase_latin1_def lower_unit_def lit_def trim_def isWhiteSpace_def)
  have h2: "map snd ?cache = [] @ ?chat # [?fam] \<and>
            (\<forall>g' \<in> set (map snd ?cache). ?lc (GroupInfo.name g') \<noteq> trim (?lc (lit ''fam''))) \<and>
            (\<forall>g' \<in> set []. \<not> js_includes (?lc (GroupInfo.name g')) (trim (?lc (lit ''fam'')))) \<and>
            js_includes (?lc (GroupInfo.name ?chat)) (trim (?lc (lit ''fam'')))"
    by (simp add: toLowerCase_latin1_def lower_unit_def lit_def trim_def isWhiteSpace_def)
  have h3: "\<forall>g' \<in> set (map snd ?cache).
              \<not> js_includes (?lc (GroupInfo.name g')) (trim (?lc (lit ''work'')))"
    by (simp add: toLowerCase_latin1_def lower_unit_def lit_def trim_def isWhiteSpace_def)
  from main [THEN conjunct1, THEN mp, OF h1]
       main [THEN conjunct2, THEN conjunct1, THEN mp, OF h2]
       main [THEN conjunct2, THEN conjunct2, THEN conjunct1, THEN mp, OF h3]
  show ?thesis by blast
qed

text \<open>
  Claim C10 as stated fails: with the group \<open>FAMILY\<close> stored before the group
  \<open>family\<close>, the query \<open>family\<close> returns \<open>FAMILY\<close>, whose name is not the
  trimmed, lowercased query, although a group of exactly that name exists.
\<close>

theorem findGroupByName_letter_case_counterexample:
  "findGroupByName toLowerCase_latin1
     [(lit ''1@g.us'', \<lparr> jid = lit ''1@g.us'', name = lit ''FAMILY'', description = None,
                         participantCount = 5 \<rparr>),
      (lit ''2@g.us'', \<lparr> jid = lit ''2@g.us'', name = lit ''family'', description = None,
                         participantCount = 3 \<rparr>)]
     (lit ''family'')
   = Some \<lparr> jid = lit ''1@g.us'', name = lit ''FAMILY'', description = None,
            participantCount = 5 \<rparr> \<and>
   GroupInfo.name \<lparr> jid = lit ''1@g.us'', name = lit ''FAMILY'', description = None,
                    participantCount = 5 \<rparr>
     \<noteq> trim (toLowerCase_latin1 (lit ''family'')) \<and>
   GroupInfo.name \<lparr> jid = lit ''2@g.us'', name = lit ''family'', description = None,
                    participantCount = 3 \<rparr>
     = trim (toLowerCase_latin1 (lit ''family''))"
  by (simp add: findGroupByName_def toLowerCase_latin1_def lower_unit_def lit_def trim_def
      isWhiteSpace_def)

section \<open>The groups registry under a rate limit\<close>

text \<open>
  With a snapshot on disk that is older than 24 hours, a full fetch rejected with
  \<^verbatim>\<open>rate-overlimit\<close> always ends in the values of the in-memory cache: the snapshot is
  not read a second time without the expiry check.
\<close>

lemma getAllGroups_rate_limited_expired:
  assumes "fetchAnswer env = Rejects (lit ''rate-overlimit'')"
    and "groupsFile s = Some data"
    and "ageHours (clock env) (lastUpdated data) > 24"
  shows "getAllGroups env forceRefresh s = (Inr (map snd (groupsCache s)), s)"
  using assms by (simp add: getAllGroups_def loadGroups_def Let_def)

text \<open>
  Claim C4 against the code. The snapshot on disk is 25 hours old and holds one group,
  the in-memory cache is empty (the process has just started), and the full fetch is
  rejected with \<^verbatim>\<open>rate-overlimit\<close>. The \<^verbatim>\<open>catch\<close> branch, commented "Try to return
  cached groups even if expired", calls \<^verbatim>\<open>loadGroups\<close>, which applies the expiry check
  again and yields nothing; \<^verbatim>\<open>getAllGroups\<close> returns the empty list and not the group of
  the snapshot. (The error is not rethrown.)
\<close>

theorem getAllGroups_rate_limit_expired_snapshot_not_served:
  "getAllGroups
     \<lparr> clock = 90000000, probeAnswer = Rejects (lit ''rate-overlimit''),
       fetchAnswer = Rejects (lit ''rate-overlimit''), writeFile = Returns \<rparr>
     False
     \<lparr> groupsCache = [],
       groupsFile = Some \<lparr> lastUpdated = 0,
         groups = [\<lparr> jid = lit ''1@g.us'', name = lit ''Family'', description = None,
                     participantCount = 3 \<rparr>],
         version = lit ''1.0'' \<rparr>,
       metadataQueue = [], isProcessingQueue = False \<rparr>
   = (Inr [],
      \<lparr> groupsCache = [],
       groupsFile = Some \<lparr> lastUpdated = 0,
         groups = [\<lparr> jid = lit ''1@g.us'', name = lit ''Family'', description = None,
                     participantCount = 3 \<rparr>],
         version = lit ''1.0'' \<rparr>,
       metadataQueue = [], isProcessingQueue = False \<rparr>)"
  by (simp add: getAllGroups_def loadGroups_def ageHours_def Let_def)

section \<open>Draining the metadata queue\<close>

lemma processLoop_Nil:
  "metadataQueue s = [] \<Longrightarrow> processLoop sock s processed successful = (s, processed, successful)"
  by (subst processLoop.simps) simp

lemma processLoop_Cons:
  "metadataQueue s = item # rest \<Longrightarrow>
   processLoop sock s processed successful =
     (let r = fetchMetadataWithRateLimit (sock (length processed) (fst item)) (fst item)
                (snd item) (s\<lparr> metadataQueue := rest \<rparr>)
      in processLoop sock (snd r) (processed @ [item])
           (if fst r then Suc successful else successful))"
  by (subst processLoop.simps) simp

lemma processLoop_queue_empty:
  "metadataQueue (fst (processLoop sock s processed successful)) = []"
proof (induction sock s processed successful rule: processLoop.induct)
  case (1 sock s processed successful)
  show ?case
  proof (cases "metadataQueue s")
    case Nil
    then show ?thesis by (simp add: processLoop_Nil)
  next
    case (Cons item rest)
    from "1.IH" [OF Cons refl] show ?thesis
      by (simp add: processLoop_Cons [OF Cons] Let_def)
  qed
qed

lemma processLoop_all_succeed:
  assumes ok: "\<forall>n j. \<exists>m. sock n j = Resolves m"
  shows "metadataQueue s = q \<Longrightarrow>
         \<exists>s'. processLoop sock s processed successful = (s', processed @ q, successful + length q) \<and>
              metadataQueue s' = [] \<and> isProcessingQueue s' = isProcessingQueue s"
proof (induction q arbitrary: s processed successful)
  case Nil
  then show ?case by (simp add: processLoop_Nil)
next
  case (Cons item rest)
  obtain m where m: "sock (length processed) (fst item) = Resolves m"
    using ok by blast
  let ?s1 = "s\<lparr> metadataQueue := rest,
                 groupsCache := assign (groupsCache s) (fst item) (toGroupInfo (fst item) m) \<rparr>"
  have step: "processLoop sock s processed successful =
              processLoop sock ?s1 (processed @ [item]) (Suc successful)"
    by (simp add: processLoop_Cons [OF Cons.prems] m fetchMetadataWithRateLimit_def)
  have "metadataQueue ?s1 = rest" by simp
  from Cons.IH [OF this, of "processed @ [item]" "Suc successful"] step
  show ?case by auto
qed

lemma processLoop_one_pass:
  assumes rl: "\<forall>n j. sock n j = Rejects (lit ''rate-overlimit'')"
  shows "metadataQueue s = q @ pending \<Longrightarrow>
         processLoop sock s processed successful =
           processLoop sock (s\<lparr> metadataQueue := pending @ requeued q \<rparr>) (processed @ q) successful"
proof (induction q arbitrary: s processed pending)
  case Nil
  then have "s\<lparr> metadataQueue := pending @ requeued [] \<rparr> = s"
    by (simp add: requeued_def)
  then show ?case by simp
next
  case (Cons item q)
  obtain j r where item: "item = (j, r)" by (cases item) auto
  let ?extra = "if r < 3 then [(j, r + 1)] else []"
  let ?s1 = "s\<lparr> metadataQueue := q @ pending @ ?extra \<rparr>"
  from Cons.prems have q0: "metadataQueue s = item # (q @ pending)" by simp
  have step: "processLoop sock s processed successful =
              processLoop sock ?s1 (processed @ [item]) successful"
    by (simp add: processLoop_Cons [OF q0] rl fetchMetadataWithRateLimit_def item)
  have "metadataQueue ?s1 = q @ (pending @ ?extra)" by simp
  from Cons.IH [OF this, of "processed @ [item]"] step
  show ?case by (simp add: requeued_def item)
qed

lemma requeued_attempt:
  "requeued (attempt 0 js) = attempt 1 js"
  "requeued (attempt 1 js) = attempt 2 js"
  "requeued (attempt (Suc 0) js) = attempt 2 js"
  "requeued (attempt 2 js) = attempt 3 js"
  "requeued (attempt 3 js) = []"
  by (induction js) (auto simp: requeued_def attempt_def)

lemma processLoop_all_rate_limited:
  assumes rl: "\<forall>n j. sock n j = Rejects (lit ''rate-overlimit'')"
    and q: "metadataQueue s = attempt 0 js"
  shows "processLoop sock s [] 0 =
           (s\<lparr> metadataQueue := [] \<rparr>,
            attempt 0 js @ attempt 1 js @ attempt 2 js @ attempt 3 js, 0)"
proof -
  have 0: "processLoop sock s [] 0 =
           processLoop sock (s\<lparr> metadataQueue := attempt 1 js \<rparr>) (attempt 0 js) 0"
    using processLoop_one_pass [OF rl, of s "attempt 0 js" "[]" "[]" 0] q
    by (simp add: requeued_attempt)
  have 1: "processLoop sock (s\<lparr> metadataQueue := attempt 1 js \<rparr>) (attempt 0 js) 0 =
           processLoop sock (s\<lparr> metadataQueue := attempt 2 js \<rparr>) (attempt 0 js @ attempt 1 js) 0"
    using processLoop_one_pass [OF rl, of "s\<lparr> metadataQueue := attempt 1 js \<rparr>"
        "attempt 1 js" "[]" "attempt 0 js" 0]
    by (simp add: requeued_attempt)
  have 2: "processLoop sock (s\<lparr> metadataQueue := attempt 2 js \<rparr>) (attempt 0 js @ attempt 1 js) 0 =
           processLoop sock (s\<lparr> metadataQueue := attempt 3 js \<rparr>)
             (attempt 0 js @ attempt 1 js @ attempt 2 js) 0"
    using processLoop_one_pass [OF rl, of "s\<lparr> metadataQueue := attempt 2 js \<rparr>"
        "attempt 2 js" "[]" "attempt 0 js @ attempt 1 js" 0]
    by (simp add: requeued_attempt)
  have 3: "processLoop sock (s\<lparr> metadataQueue := attempt 3 js \<rparr>)
             (attempt 0 js @ attempt 1 js @ attempt 2 js) 0 =
           processLoop sock (s\<lparr> metadataQueue := [] \<rparr>)
             (attempt 0 js @ attempt 1 js @ attempt 2 js @ attempt 3 js) 0"
    using processLoop_one_pass [OF rl, of "s\<lparr> metadataQueue := attempt 3 js \<rparr>"
        "attempt 3 js" "[]" "attempt 0 js @ attempt 1 js @ attempt 2 js" 0]
    by (simp add: requeued_attempt)
  show ?thesis
    by (simp only: 0 1 2 3) (simp add: processLoop_Nil)
qed

text \<open>
  Claim C5. The queue holds the identifiers \<open>js\<close>, each with retry count 0, and no
  drain is running. Then \<^verbatim>\<open>processMetadataQueue\<close> returns, and
  \<^item> whatever the socket answers, the queue is empty afterwards;
  \<^item> when every fetch succeeds, the entries processed are the queued ones, in their
    order, all successful, and no further round is scheduled;
  \<^item> when every fetch is rejected with \<^verbatim>\<open>rate-overlimit\<close>, every identifier is tried
    with the retry counts 0, 1, 2 and 3, round after round in the queue's order, and is
    then dropped; nothing succeeds, and only the queue's content has changed.

  With no identifier queued the function returns at once (\<open>None\<close>).
\<close>

theorem processMetadataQueue_drains:
  assumes "\<not> isProcessingQueue s" and "metadataQueue s = attempt 0 js"
  shows "metadataQueue (fst (processMetadataQueue sock s)) = [] \<and>
         ((\<forall>n j. \<exists>m. sock n j = Resolves m) \<longrightarrow>
            snd (processMetadataQueue sock s) =
              (if js = [] then None else Some (attempt 0 js, length js, False))) \<and>
         ((\<forall>n j. sock n j = Rejects (lit ''rate-overlimit'')) \<longrightarrow>
            processMetadataQueue sock s =
              (s\<lparr> metadataQueue := [] \<rparr>,
               if js = [] then None
               else Some (attempt 0 js @ attempt 1 js @ attempt 2 js @ attempt 3 js, 0, False)))"
proof (cases "js = []")
  case True
  with assms have e: "metadataQueue s = []" by (simp add: attempt_def)
  then have "s\<lparr> metadataQueue := [] \<rparr> = s" by (cases s) simp
  with e True assms(1) show ?thesis
    by (simp add: processMetadataQueue_def)
next
  case False
  with assms have ne: "metadataQueue s \<noteq> []" by (simp add: attempt_def)
  have q: "metadataQueue (s\<lparr> isProcessingQueue := True \<rparr>) = attempt 0 js"
    using assms(2) by simp
  have empty: "metadataQueue (fst (processMetadataQueue sock s)) = []"
  proof -
    obtain s' p n where r: "processLoop sock (s\<lparr> isProcessingQueue := True \<rparr>) [] 0 = (s', p, n)"
      by (cases "processLoop sock (s\<lparr> isProcessingQueue := True \<rparr>) [] 0") auto
    from processLoop_queue_empty [of sock "s\<lparr> isProcessingQueue := True \<rparr>" "[]" 0] r
    have "metadataQueue s' = []" by simp
    with r assms(1) ne show ?thesis
      by (simp add: processMetadataQueue_def)
  qed
  have good: "snd (processMetadataQueue sock s) = Some (attempt 0 js, length js, False)"
    if ok: "\<forall>n j. \<exists>m. sock n j = Resolves m"
  proof -
    from processLoop_all_succeed [OF ok q, of "[]" 0]
    obtain s' where
      r: "processLoop sock (s\<lparr> isProcessingQueue := True \<rparr>) [] 0 = (s', attempt 0 js, length js)"
      and e: "metadataQueue s' = []"
      by (auto simp: attempt_def)
    from r e assms(1) ne show ?thesis
      by (simp add: processMetadataQueue_def)
  qed
  have bad: "processMetadataQueue sock s =
          (s\<lparr> metadataQueue := [] \<rparr>,
           Some (attempt 0 js @ attempt 1 js @ attempt 2 js @ attempt 3 js, 0, False))"
    if rl: "\<forall>n j. sock n j = Rejects (lit ''rate-overlimit'')"
  proof -
    note r = processLoop_all_rate_limited [OF rl q]
    have restore: "s\<lparr> isProcessingQueue := True, metadataQueue := [], isProcessingQueue := False \<rparr>
                = s\<lparr> metadataQueue := [] \<rparr>"
      using assms(1) by (cases s) simp
    from r assms(1) ne restore show ?thesis
      by (simp add: processMetadataQueue_def)
  qed
  from empty good bad False show ?thesis by simp
qed

theorem processMetadataQueue_drains_witness:
  "metadataQueue (fst (processMetadataQueue
       (\<lambda>n j. Resolves \<lparr> subject = Some (lit ''Family''), desc = None, participants = Some [j] \<rparr>)
       \<lparr> groupsCache = [], groupsFile = None,
         metadataQueue = [(lit ''1@g.us'', 0), (lit ''2@g.us'', 0)],
         isProcessingQueue = False \<rparr>)) = [] \<and>
   snd (processMetadataQueue
       (\<lambda>n j. Resolves \<lparr> subject = Some (lit ''Family''), desc = None, participants = Some [j] \<rparr>)
       \<lparr> groupsCache = [], groupsFile = None,
         metadataQueue = [(lit ''1@g.us'', 0), (lit ''2@g.us'', 0)],
         isProcessingQueue = False \<rparr>)
     = Some ([(lit ''1@g.us'', 0), (lit ''2@g.us'', 0)], 2, False) \<and>
   processMetadataQueue (\<lambda>n j. Rejects (lit ''rate-overlimit''))
       \<lparr> groupsCache = [], groupsFile = None,
         metadataQueue = [(lit ''1@g.us'', 0), (lit ''2@g.us'', 0)],
         isProcessingQueue = False \<rparr>
     = (\<lparr> groupsCache = [], groupsFile = None, metadataQueue = [], isProcessingQueue = False \<rparr>,
        Some ([(lit ''1@g.us'', 0), (lit ''2@g.us'', 0), (lit ''1@g.us'', 1), (lit ''2@g.us'', 1),
               (lit ''1@g.us'', 2), (lit ''2@g.us'', 2), (lit ''1@g.us'', 3), (lit ''2@g.us'', 3)],
              0, False))"
proof -
  let ?s = "\<lparr> groupsCache = [], groupsFile = None,
              metadataQueue = [(lit ''1@g.us'', 0), (lit ''2@g.us'', 0)],
              isProcessingQueue = False \<rparr>"
  let ?js = "[lit ''1@g.us'', lit ''2@g.us'']"
  let ?good = "\<lambda>(n :: nat) j.
      Resolves \<lparr> subject = Some (lit ''Family''), desc = None, participants = Some [j] \<rparr>"
  let ?bad = "\<lambda>(n :: nat) (j :: jsstring). (Rejects (lit ''rate-overlimit'') :: GroupMetadata promise)"
  have h1: "\<not> isProcessingQueue ?s" by simp
  have h3: "metadataQueue ?s = attempt 0 ?js" by (simp add: attempt_def)
  have g: "\<forall>n j. \<exists>m. ?good n j = Resolves m" by simp
  have b: "\<forall>n j. ?bad n j = Rejects (lit ''rate-overlimit'')" by simp
  from processMetadataQueue_drains [OF h1 h3, of ?good] g
  have 1: "metadataQueue (fst (processMetadataQueue ?good ?s)) = []"
    and 2: "snd (processMetadataQueue ?good ?s) = Some (attempt 0 ?js, length ?js, False)"
    by simp_all
  from processMetadataQueue_drains [OF h1 h3, of ?bad] b
  have 3: "processMetadataQueue ?bad ?s =
             (?s\<lparr> metadataQueue := [] \<rparr>,
              Some (attempt 0 ?js @ attempt 1 ?js @ attempt 2 ?js @ attempt 3 ?js, 0, False))"
    by simp
  from 1 2 3 show ?thesis by (simp add: attempt_def)
qed

section \<open>Cleaning the history cache\<close>

lemma cachedHistories_intro:
  assumes "indexFile fs = Some index" and "(j, (gname, t)) \<in> set index"
    and "cacheFiles fs (getGroupCacheFile j) = Some h"
  shows "(j, gname, ageHours now (fetchedAt h), messageCount h)
           \<in> set (getAllCachedHistories now fs)"
  using assms
  by (force simp: getAllCachedHistories_def getGroupHistoryCacheInfo_def)

lemma cachedHistories_elim:
  assumes "(j, gname, age, n) \<in> set (getAllCachedHistories now fs)"
  shows "\<exists>h. cacheFiles fs (getGroupCacheFile j) = Some h \<and> age = ageHours now (fetchedAt h)"
  using assms
  by (auto simp: getAllCachedHistories_def getGroupHistoryCacheInfo_def split: option.splits)

lemma cleanLoop_Cons:
  "cleanLoop u ((j, gname, age, n) # hs) (fs, c) =
     (if age > CACHE_DURATION_HOURS \<and> \<not> u (getGroupCacheFile j) \<and>
         cacheFiles fs (getGroupCacheFile j) \<noteq> None
      then cleanLoop u hs (fs\<lparr> cacheFiles := (cacheFiles fs)(getGroupCacheFile j := None) \<rparr>, c + 1)
      else cleanLoop u hs (fs, c))"
  by (simp add: unlink_def)

lemma cleanLoop_index:
  "indexFile (fst (cleanLoop u hs (fs, c))) = indexFile fs"
proof (induction hs arbitrary: fs c)
  case Nil
  then show ?case by simp
next
  case (Cons x hs)
  obtain j gname age n where x: "x = (j, gname, age, n)" by (cases x) auto
  show ?case
    unfolding x cleanLoop_Cons by (simp add: Cons.IH)
qed

lemma cleanLoop_stays_absent:
  "cacheFiles fs p = None \<Longrightarrow> cacheFiles (fst (cleanLoop u hs (fs, c))) p = None"
proof (induction hs arbitrary: fs c)
  case Nil
  then show ?case by simp
next
  case (Cons x hs)
  obtain j gname age n where x: "x = (j, gname, age, n)" by (cases x) auto
  show ?case
    unfolding x cleanLoop_Cons using Cons.prems by (simp add: Cons.IH)
qed

lemma cleanLoop_removes:
  "(j, gname, age, n) \<in> set hs \<Longrightarrow> age > CACHE_DURATION_HOURS \<Longrightarrow>
   \<not> u (getGroupCacheFile j) \<Longrightarrow>
   cacheFiles (fst (cleanLoop u hs (fs, c))) (getGroupCacheFile j) = None"
proof (induction hs arbitrary: fs c)
  case Nil
  then show ?case by simp
next
  case (Cons x hs)
  obtain j' gname' age' n' where x: "x = (j', gname', age', n')" by (cases x) auto
  show ?case
  proof (cases "(j, gname, age, n) = x")
    case True
    with Cons.prems x show ?thesis
      unfolding x cleanLoop_Cons by (auto simp: cleanLoop_stays_absent)
  next
    case False
    with Cons.prems have "(j, gname, age, n) \<in> set hs" by simp
    from Cons.IH [OF this Cons.prems(2,3)] show ?thesis
      unfolding x cleanLoop_Cons by simp
  qed
qed

lemma cleanLoop_keeps:
  "\<forall>(j, gname, age, n) \<in> set hs. age > CACHE_DURATION_HOURS \<longrightarrow> getGroupCacheFile j \<noteq> p \<Longrightarrow>
   cacheFiles (fst (cleanLoop u hs (fs, c))) p = cacheFiles fs p"
proof (induction hs arbitrary: fs c)
  case Nil
  then show ?case by simp
next
  case (Cons x hs)
  obtain j gname age n where x: "x = (j, gname, age, n)" by (cases x) auto
  from Cons.prems have rest:
    "\<forall>(j, gname, age, n) \<in> set hs. age > CACHE_DURATION_HOURS \<longrightarrow> getGroupCacheFile j \<noteq> p"
    by simp
  from Cons.prems x have here: "age > CACHE_DURATION_HOURS \<longrightarrow> getGroupCacheFile j \<noteq> p"
    by simp
  show ?case
    unfolding x cleanLoop_Cons using here by (auto simp: Cons.IH [OF rest])
qed

text \<open>The one function that writes the index adds or replaces an entry and removes none.\<close>

lemma keys_assign:
  "set (map fst (assign st k' v)) = insert k' (set (map fst st))"
  by (induction st) force+

lemma updateHistoryIndex_keeps_entries:
  assumes "indexFile fs = Some index" and "k \<in> set (map fst index)"
  shows "\<exists>index'. indexFile (updateHistoryIndex Returns j gname t fs) = Some index' \<and>
                  k \<in> set (map fst index')"
  using assms keys_assign [of index j "(gname, t)"]
  by (simp add: updateHistoryIndex_def)

text \<open>
  Claim C8, as the code has it. \<^verbatim>\<open>cleanExpiredHistoryCache\<close>
  \<^item> leaves the index file as it was: no entry is removed from it;
  \<^item> deletes the cache file of every entry of the index whose file reads and is older
    than 6 hours (unless the file system refuses the deletion);
  \<^item> keeps every cache file that is at most 6 hours old.
\<close>

theorem cleanExpiredHistoryCache_deletes_files_keeps_index:
  "indexFile (fst (cleanExpiredHistoryCache u now fs)) = indexFile fs \<and>
   (indexFile fs = Some index \<and> (j, (gname, t)) \<in> set index \<and>
    cacheFiles fs (getGroupCacheFile j) = Some h \<and>
    ageHours now (fetchedAt h) > CACHE_DURATION_HOURS \<and> \<not> u (getGroupCacheFile j)
      \<longrightarrow> cacheFiles (fst (cleanExpiredHistoryCache u now fs)) (getGroupCacheFile j) = None) \<and>
   (cacheFiles fs p = Some h' \<and> ageHours now (fetchedAt h') \<le> CACHE_DURATION_HOURS
      \<longrightarrow> cacheFiles (fst (cleanExpiredHistoryCache u now fs)) p = Some h')"
proof (intro conjI impI)
  show "indexFile (fst (cleanExpiredHistoryCache u now fs)) = indexFile fs"
    by (simp add: cleanExpiredHistoryCache_def cleanLoop_index)
next
  assume a: "indexFile fs = Some index \<and> (j, (gname, t)) \<in> set index \<and>
    cacheFiles fs (getGroupCacheFile j) = Some h \<and>
    ageHours now (fetchedAt h) > CACHE_DURATION_HOURS \<and> \<not> u (getGroupCacheFile j)"
  then have m: "(j, gname, ageHours now (fetchedAt h), messageCount h)
      \<in> set (getAllCachedHistories now fs)"
    by (intro cachedHistories_intro) auto
  from a have old: "ageHours now (fetchedAt h) > CACHE_DURATION_HOURS"
    and ok: "\<not> u (getGroupCacheFile j)" by simp_all
  show "cacheFiles (fst (cleanExpiredHistoryCache u now fs)) (getGroupCacheFile j) = None"
    unfolding cleanExpiredHistoryCache_def by (rule cleanLoop_removes [where u = u, OF m old ok])
next
  assume a: "cacheFiles fs p = Some h' \<and> ageHours now (fetchedAt h') \<le> CACHE_DURATION_HOURS"
  have k: "\<forall>(j, gname, age, n) \<in> set (getAllCachedHistories now fs).
          age > CACHE_DURATION_HOURS \<longrightarrow> getGroupCacheFile j \<noteq> p"
    using a by (auto dest!: cachedHistories_elim)
  have "cacheFiles (fst (cleanExpiredHistoryCache u now fs)) p = cacheFiles fs p"
    unfolding cleanExpiredHistoryCache_def by (rule cleanLoop_keeps [OF k])
  with a show "cacheFiles (fst (cleanExpiredHistoryCache u now fs)) p = Some h'"
    by simp
qed

theorem cleanExpiredHistoryCache_deletes_files_keeps_index_witness:
  "cacheFiles (fst (cleanExpiredHistoryCache (\<lambda>p. False) 25200000
      \<lparr> cacheFiles = ((\<lambda>p. None)
           (getGroupCacheFile (lit ''1@g.us'') :=
              Some \<lparr> groupJid = lit ''1@g.us'', groupName = lit ''Family'',
                     messages = [lit ''hello''], fetchedAt = 0, messageCount = 1,
                     period = lit ''24h'' \<rparr>))
           (getGroupCacheFile (lit ''2@g.us'') :=
              Some \<lparr> groupJid = lit ''2@g.us'', groupName = lit ''Work'',
                     messages = [], fetchedAt = 20000000, messageCount = 0,
                     period = lit ''24h'' \<rparr>),
        indexFile = Some [(lit ''1@g.us'', (lit ''Family'', 0)),
                          (lit ''2@g.us'', (lit ''Work'', 20000000))] \<rparr>))
     (getGroupCacheFile (lit ''1@g.us'')) = None \<and>
   cacheFiles (fst (cleanExpiredHistoryCache (\<lambda>p. False) 25200000
      \<lparr> cacheFiles = ((\<lambda>p. None)
           (getGroupCacheFile (lit ''1@g.us'') :=
              Some \<lparr> groupJid = lit ''1@g.us'', groupName = lit ''Family'',
                     messages = [lit ''hello''], fetchedAt = 0, messageCount = 1,
                     period = lit ''24h'' \<rparr>))
           (getGroupCacheFile (lit ''2@g.us'') :=
              Some \<lparr> groupJid = lit ''2@g.us'', groupName = lit ''Work'',
                     messages = [], fetchedAt = 20000000, messageCount = 0,
                     period = lit ''24h'' \<rparr>),
        indexFile = Some [(lit ''1@g.us'', (lit ''Family'', 0)),
                          (lit ''2@g.us'', (lit ''Work'', 20000000))] \<rparr>))
     (getGroupCacheFile (lit ''2@g.us''))
     = Some \<lparr> groupJid = lit ''2@g.us'', groupName = lit ''Work'',
              messages = [], fetchedAt = 20000000, messageCount = 0, period = lit ''24h'' \<rparr>"
proof -
  let ?h1 = "\<lparr> groupJid = lit ''1@g.us'', groupName = lit ''Family'',
                messages = [lit ''hello''], fetchedAt = 0, messageCount = 1,
                period = lit ''24h'' \<rparr>"
  let ?h2 = "\<lparr> groupJid = lit ''2@g.us'', groupName = lit ''Work'',
                messages = [] :: jsstring list, fetchedAt = 20000000, messageCount = 0,
                period = lit ''24h'' \<rparr>"
  let ?index = "[(lit ''1@g.us'', (lit ''Family'', 0 :: int)),
                 (lit ''2@g.us'', (lit ''Work'', 20000000))]"
  let ?fs = "\<lparr> cacheFiles = ((\<lambda>p. None)
                 (getGroupCacheFile (lit ''1@g.us'') := Some ?h1))
                 (getGroupCacheFile (lit ''2@g.us'') := Some ?h2),
               indexFile = Some ?index \<rparr>"
  have ne: "getGroupCacheFile (lit ''1@g.us'') \<noteq> getGroupCacheFile (lit ''2@g.us'')"
    by (simp add: getGroupCacheFile_def lit_def isAlnum_def)
  have a: "indexFile ?fs = Some ?index \<and> (lit ''1@g.us'', (lit ''Family'', 0)) \<in> set ?index \<and>
           cacheFiles ?fs (getGroupCacheFile (lit ''1@g.us'')) = Some ?h1 \<and>
           ageHours 25200000 (fetchedAt ?h1) > CACHE_DURATION_HOURS \<and>
           \<not> (\<lambda>p. False) (getGroupCacheFile (lit ''1@g.us''))"
    using ne by (simp add: ageHours_def CACHE_DURATION_HOURS_def)
  have b: "cacheFiles ?fs (getGroupCacheFile (lit ''2@g.us'')) = Some ?h2 \<and>
           ageHours 25200000 (fetchedAt ?h2) \<le> CACHE_DURATION_HOURS"
    by (simp add: ageHours_def CACHE_DURATION_HOURS_def)
  note main = cleanExpiredHistoryCache_deletes_files_keeps_index
  from main [THEN conjunct2, THEN conjunct1, THEN mp, OF a]
       main [THEN conjunct2, THEN conjunct2, THEN mp, OF b]
  show ?thesis by blast
qed

text \<open>
  Claim C8 as stated fails: after the cleaning, the one entry of the index, 7 hours old
  and so expired, is still in the index (its cache file is gone).
\<close>

theorem cleanExpiredHistoryCache_index_counterexample:
  "expiredEntries 25200000
     (case indexFile (fst (cleanExpiredHistoryCache (\<lambda>p. False) 25200000
        \<lparr> cacheFiles = (\<lambda>p. None)(getGroupCacheFile (lit ''1@g.us'') :=
             Some \<lparr> groupJid = lit ''1@g.us'', groupName = lit ''Family'',
                    messages = [lit ''hello''], fetchedAt = 0, messageCount = 1,
                    period = lit ''24h'' \<rparr>),
          indexFile = Some [(lit ''1@g.us'', (lit ''Family'', 0))] \<rparr>)) of
        None \<Rightarrow> [] | Some index \<Rightarrow> index)
   = [lit ''1@g.us'']"
  by (simp add: cleanExpiredHistoryCache_def cleanLoop_index expiredEntries_def ageHours_def
      CACHE_DURATION_HOURS_def)

end
